theory Spec2Isabelle
  imports Complex_Main
begin

section \<open>Hohmann transfer simulation: orbital kinematics\<close>

text \<open>
  The repository consists of two scripts, \<^verbatim>\<open>Hohmann_Rocket_Sim.py\<close> and
  \<^verbatim>\<open>Hohmann_rocket_angle_updated.py\<close>. Both compute, from four physical constants,
  the position series of two circular orbits and of a transfer arc on a grid of 1000
  instants, the index of closest approach between the translated arc and the outer body,
  and (per animation frame) the position of the rocket.

  NumPy's double-precision arrays are modelled as lists of real numbers: every
  arithmetic operation of the scripts is the exact operation on \<open>\<real>\<close>, and rounding is
  not part of the model. Decimal literals of the scripts denote the rationals they
  spell.
\<close>

subsection \<open>NumPy primitives used by the scripts\<close>

type_synonym ndarray = "real list"

text \<open>
  The two ways NumPy fails in the expressions of the scripts: two array operands whose
  shapes cannot be broadcast, and \<^verbatim>\<open>argmin\<close> of an empty array (both are
  \<^verbatim>\<open>ValueError\<close> in Python); indexing outside an array is \<^verbatim>\<open>IndexError\<close>.
\<close>

datatype error = ValueError_broadcast | ValueError_argmin_empty | IndexError

text \<open>
  \<^verbatim>\<open>np.linspace(start, stop, num)\<close>: \<open>num\<close> samples \<open>i * step + start\<close> with
  \<open>step = (stop - start) / (num - 1)\<close>; when there is more than one sample the last one
  is overwritten with \<open>stop\<close>.
\<close>

definition linspace :: "real \<Rightarrow> real \<Rightarrow> nat \<Rightarrow> ndarray" where
  "linspace start stop num =
     (if num = 0 then []
      else if num = 1 then [start]
      else (map (\<lambda>i. real i * ((stop - start) / real (num - 1)) + start) [0..<num])
             [num - 1 := stop])"

text \<open>Indexing a one-dimensional array with a non-negative index.\<close>

definition getitem :: "'a list \<Rightarrow> nat \<Rightarrow> error + 'a" where
  "getitem xs i = (if i < length xs then Inr (xs ! i) else Inl IndexError)"

text \<open>
  An elementwise binary operation on two one-dimensional arrays, with NumPy's
  broadcasting: equal lengths combine pointwise, an operand of length 1 is stretched to
  the length of the other, any other pair of lengths raises.
\<close>

definition np_binop :: "(real \<Rightarrow> real \<Rightarrow> real) \<Rightarrow> ndarray \<Rightarrow> ndarray \<Rightarrow> error + ndarray" where
  "np_binop f xs ys =
     (if length xs = length ys then Inr (map2 f xs ys)
      else if length xs = 1 then Inr (map (f (hd xs)) ys)
      else if length ys = 1 then Inr (map (\<lambda>x. f x (hd ys)) xs)
      else Inl ValueError_broadcast)"

text \<open>
  \<^verbatim>\<open>np.argmin\<close> on a one-dimensional array: a left-to-right scan that remembers the
  smallest value seen so far and its index, and replaces them only by a strictly smaller
  value. The empty array raises.
\<close>

fun argmin_scan :: "ndarray \<Rightarrow> nat \<Rightarrow> nat \<Rightarrow> real \<Rightarrow> nat" where
  "argmin_scan [] i min_ind mp = min_ind"
| "argmin_scan (x # xs) i min_ind mp =
     (if x < mp then argmin_scan xs (Suc i) i x else argmin_scan xs (Suc i) min_ind mp)"

definition np_argmin :: "ndarray \<Rightarrow> error + nat" where
  "np_argmin xs = (case xs of [] \<Rightarrow> Inl ValueError_argmin_empty
                   | x # rest \<Rightarrow> Inr (argmin_scan rest 1 0 x))"

text \<open>
  \<^verbatim>\<open>np.arctan2(y, x)\<close>: the angle of the point \<open>(x, y)\<close> in \<open>(-\<pi>, \<pi>]\<close>, and 0 at
  the origin. \<^verbatim>\<open>np.deg2rad\<close> multiplies by \<open>\<pi> / 180\<close>.
\<close>

definition arctan2 :: "real \<Rightarrow> real \<Rightarrow> real" where
  "arctan2 y x =
     (if 0 < x then arctan (y / x)
      else if x < 0 then (if 0 \<le> y then arctan (y / x) + pi else arctan (y / x) - pi)
      else if 0 < y then pi / 2
      else if y < 0 then - (pi / 2)
      else 0)"

definition deg2rad :: "real \<Rightarrow> real" where
  "deg2rad d = d * (pi / 180)"

subsection \<open>Constants and periods\<close>

definition G :: real where
  "G = 6.67430 / 10 ^ 11"

definition M_sun :: real where
  "M_sun = 1.989 * 10 ^ 30"

definition r_earth_orbit :: real where
  "r_earth_orbit = 1.496 * 10 ^ 11"

definition r_mars_orbit :: real where
  "r_mars_orbit = 2.279 * 10 ^ 11"

text \<open>
  Kepler's third law as both scripts write it for the two orbits:
  \<^verbatim>\<open>2 * np.pi * np.sqrt(r**3 / (G * M_sun))\<close>.
\<close>

definition computePeriod :: "real \<Rightarrow> real \<Rightarrow> real" where
  "computePeriod r M = 2 * pi * sqrt (r ^ 3 / (G * M))"

definition T_earth :: real where
  "T_earth = computePeriod r_earth_orbit M_sun"

definition T_mars :: real where
  "T_mars = computePeriod r_mars_orbit M_sun"

definition semi_major :: "real \<Rightarrow> real \<Rightarrow> real" where
  "semi_major innerRadius outerRadius = (innerRadius + outerRadius) / 2"

definition a_transfer :: real where
  "a_transfer = semi_major r_earth_orbit r_mars_orbit"

definition N_samples :: nat where
  "N_samples = 1000"

definition t_grid :: ndarray where
  "t_grid = linspace 0 T_mars N_samples"

subsection \<open>Position series\<close>

text \<open>
  A circular orbit: \<^verbatim>\<open>theta = (2 * np.pi / T) * t + phase\<close>,
  \<^verbatim>\<open>x = r * np.cos(theta)\<close>, \<^verbatim>\<open>y = r * np.sin(theta)\<close>. The inner body is written
  without a phase term.
\<close>

definition orbit_theta :: "real \<Rightarrow> real \<Rightarrow> ndarray \<Rightarrow> ndarray" where
  "orbit_theta T phase ts = map (\<lambda>t. (2 * pi / T) * t + phase) ts"

definition orbit_x :: "real \<Rightarrow> ndarray \<Rightarrow> ndarray" where
  "orbit_x r thetas = map (\<lambda>th. r * cos th) thetas"

definition orbit_y :: "real \<Rightarrow> ndarray \<Rightarrow> ndarray" where
  "orbit_y r thetas = map (\<lambda>th. r * sin th) thetas"

text \<open>
  The three expressions together, as the operation on a radius, a period, a phase offset
  and a time grid that returns the series of points.
\<close>

definition computeCircularPositions ::
  "real \<Rightarrow> real \<Rightarrow> real \<Rightarrow> ndarray \<Rightarrow> (real \<times> real) list" where
  "computeCircularPositions r T phase ts =
     zip (orbit_x r (orbit_theta T phase ts)) (orbit_y r (orbit_theta T phase ts))"

text \<open>
  The transfer arc: \<^verbatim>\<open>theta_transfer = np.sqrt((G * M_sun) / a_transfer**3) * t\<close>.
  The x component is \<^verbatim>\<open>a_transfer * (np.cos(theta_transfer) - 1)\<close> in
  \<^verbatim>\<open>Hohmann_Rocket_Sim.py\<close> and \<^verbatim>\<open>a_transfer * np.cos(theta_transfer) - a_transfer\<close>
  in \<^verbatim>\<open>Hohmann_rocket_angle_updated.py\<close>; the y component is
  \<^verbatim>\<open>a_transfer * np.sin(theta_transfer)\<close> in both.
\<close>

definition transfer_theta :: "real \<Rightarrow> real \<Rightarrow> ndarray \<Rightarrow> ndarray" where
  "transfer_theta a M ts = map (\<lambda>t. sqrt ((G * M) / a ^ 3) * t) ts"

definition transfer_x_sim :: "real \<Rightarrow> ndarray \<Rightarrow> ndarray" where
  "transfer_x_sim a thetas = map (\<lambda>th. a * (cos th - 1)) thetas"

definition transfer_x_upd :: "real \<Rightarrow> ndarray \<Rightarrow> ndarray" where
  "transfer_x_upd a thetas = map (\<lambda>th. a * cos th - a) thetas"

definition transfer_y :: "real \<Rightarrow> ndarray \<Rightarrow> ndarray" where
  "transfer_y a thetas = map (\<lambda>th. a * sin th) thetas"

text \<open>
  The arc as the operation on the two radii, the central mass and a time grid, with the
  semi-major axis \<^verbatim>\<open>(r_earth_orbit + r_mars_orbit) / 2\<close> computed from the radii.
\<close>

definition computeTransferArc ::
  "real \<Rightarrow> real \<Rightarrow> real \<Rightarrow> ndarray \<Rightarrow> (real \<times> real) list" where
  "computeTransferArc innerRadius outerRadius M ts =
     (let a = semi_major innerRadius outerRadius; thetas = transfer_theta a M ts
      in zip (transfer_x_sim a thetas) (transfer_y a thetas))"

text \<open>The angle series of the inner body and of the arc on the grid of the scripts.\<close>

definition theta_earth :: ndarray where
  "theta_earth = map (\<lambda>t. (2 * pi / T_earth) * t) t_grid"

definition theta_transfer :: ndarray where
  "theta_transfer = transfer_theta a_transfer M_sun t_grid"

text \<open>
  The outer body. \<^verbatim>\<open>Hohmann_Rocket_Sim.py\<close> adds the literal 44.75 to the angle;
  \<^verbatim>\<open>Hohmann_rocket_angle_updated.py\<close> adds \<^verbatim>\<open>np.deg2rad(44.75)\<close>.
\<close>

definition phase_sim :: real where
  "phase_sim = 44.75"

definition phase_upd :: real where
  "phase_upd = deg2rad 44.75"

text \<open>
  The module-level arrays of a script, under the names the scripts give them. The two
  scripts differ in the phase added to the outer body's angle and in the way the x
  component of the arc is written; \<open>script\<close> takes both as parameters.
\<close>

record series =
  t_arr :: ndarray
  x_earth :: ndarray
  y_earth :: ndarray
  x_mars :: ndarray
  y_mars :: ndarray
  x_transfer :: ndarray
  y_transfer :: ndarray

definition script :: "real \<Rightarrow> (real \<Rightarrow> ndarray \<Rightarrow> ndarray) \<Rightarrow> series" where
  "script phase transfer_x =
     \<lparr> t_arr = t_grid,
       x_earth = orbit_x r_earth_orbit theta_earth,
       y_earth = orbit_y r_earth_orbit theta_earth,
       x_mars = orbit_x r_mars_orbit (orbit_theta T_mars phase t_grid),
       y_mars = orbit_y r_mars_orbit (orbit_theta T_mars phase t_grid),
       x_transfer = transfer_x a_transfer theta_transfer,
       y_transfer = transfer_y a_transfer theta_transfer \<rparr>"

definition script_sim :: series where
  "script_sim = script phase_sim transfer_x_sim"

definition script_upd :: series where
  "script_upd = script phase_upd transfer_x_upd"

subsection \<open>Closest approach\<close>

text \<open>Sequencing of computations that may raise: the first error is the result.\<close>

definition bind_err :: "error + 'a \<Rightarrow> ('a \<Rightarrow> error + 'b) \<Rightarrow> error + 'b" where
  "bind_err r f = (case r of Inl e \<Rightarrow> Inl e | Inr v \<Rightarrow> f v)"

text \<open>
  \<^verbatim>\<open>np.sqrt((xs - xm)**2 + (ys - ym)**2)\<close> for a rocket series \<open>(xs, ys)\<close> and a target
  series \<open>(xm, ym)\<close>: two array subtractions, two squarings, one array addition and a
  square root, each array-array operation broadcasting.
\<close>

definition separation :: "ndarray \<Rightarrow> ndarray \<Rightarrow> ndarray \<Rightarrow> ndarray \<Rightarrow> error + ndarray" where
  "separation xs ys xm ym =
     bind_err (np_binop (-) xs xm) (\<lambda>dx.
     bind_err (np_binop (-) ys ym) (\<lambda>dy.
     bind_err (np_binop (+) (map (\<lambda>d. d ^ 2) dx) (map (\<lambda>d. d ^ 2) dy)) (\<lambda>sq.
     Inr (map sqrt sq))))"

text \<open>
  The arc translated by the inner body's first position,
  \<^verbatim>\<open>(x_transfer + x_earth[0], y_transfer + y_earth[0])\<close>, and the outer body's series,
  as sequences of points.
\<close>

definition transferPositionsInSharedFrame :: "series \<Rightarrow> (real \<times> real) list" where
  "transferPositionsInSharedFrame s =
     zip (map (\<lambda>x. x + x_earth s ! 0) (x_transfer s)) (map (\<lambda>y. y + y_earth s ! 0) (y_transfer s))"

definition targetPositions :: "series \<Rightarrow> (real \<times> real) list" where
  "targetPositions s = zip (x_mars s) (y_mars s)"

definition innerPositions :: "series \<Rightarrow> (real \<times> real) list" where
  "innerPositions s = zip (x_earth s) (y_earth s)"

text \<open>
  \<^verbatim>\<open>distances_to_mars\<close> and \<^verbatim>\<open>intercept_idx = np.argmin(distances_to_mars)\<close> as the
  scripts compute them from their arrays.
\<close>

definition distances_to_mars :: "series \<Rightarrow> error + ndarray" where
  "distances_to_mars s =
     bind_err (getitem (x_earth s) 0) (\<lambda>x0.
     bind_err (getitem (y_earth s) 0) (\<lambda>y0.
       separation (map (\<lambda>x. x + x0) (x_transfer s)) (map (\<lambda>y. y + y0) (y_transfer s))
                  (x_mars s) (y_mars s)))"

definition intercept_idx :: "series \<Rightarrow> error + nat" where
  "intercept_idx s = bind_err (distances_to_mars s) np_argmin"

text \<open>
  The same search as an operation on two sequences of points: the distance expression
  of the scripts applied to the coordinates of the two sequences, then \<^verbatim>\<open>np.argmin\<close>.
\<close>

definition findClosestApproach ::
  "(real \<times> real) list \<Rightarrow> (real \<times> real) list \<Rightarrow> error + nat" where
  "findClosestApproach transferPositions targetPos =
     bind_err (separation (map fst transferPositions) (map snd transferPositions)
                          (map fst targetPos) (map snd targetPos)) np_argmin"

definition dist2d :: "real \<times> real \<Rightarrow> real \<times> real \<Rightarrow> real" where
  "dist2d p q = sqrt ((fst p - fst q) ^ 2 + (snd p - snd q) ^ 2)"

subsection \<open>The rocket's position and the per-frame read-outs\<close>

text \<open>
  The two-branch selection that \<^verbatim>\<open>animate\<close> of both scripts and the distance loop of
  \<^verbatim>\<open>Hohmann_rocket_angle_updated.py\<close> perform for a frame \<open>i\<close>: before the intercept
  index the translated arc, from it on the outer body.
\<close>

definition rocket_at :: "series \<Rightarrow> nat \<Rightarrow> nat \<Rightarrow> error + real \<times> real" where
  "rocket_at s idx i =
     (if i < idx then
        bind_err (getitem (x_transfer s) i) (\<lambda>xt.
        bind_err (getitem (x_earth s) 0) (\<lambda>x0.
        bind_err (getitem (y_transfer s) i) (\<lambda>yt.
        bind_err (getitem (y_earth s) 0) (\<lambda>y0.
        Inr (xt + x0, yt + y0)))))
      else
        bind_err (getitem (x_mars s) i) (\<lambda>xm.
        bind_err (getitem (y_mars s) i) (\<lambda>ym.
        Inr (xm, ym))))"

text \<open>
  The rocket's positions over all frames \<^verbatim>\<open>range(len(t))\<close>, collected in frame order.
\<close>

fun compose_frames :: "series \<Rightarrow> nat \<Rightarrow> nat list \<Rightarrow> (real \<times> real) list \<Rightarrow> error + (real \<times> real) list" where
  "compose_frames s idx [] acc = Inr acc"
| "compose_frames s idx (i # frames) acc =
     bind_err (rocket_at s idx i) (\<lambda>p. compose_frames s idx frames (acc @ [p]))"

definition composeTrajectory :: "series \<Rightarrow> nat \<Rightarrow> error + (real \<times> real) list" where
  "composeTrajectory s idx = compose_frames s idx [0..<length (t_arr s)] []"

text \<open>
  \<^verbatim>\<open>animate(i)\<close> of \<^verbatim>\<open>Hohmann_Rocket_Sim.py\<close>: the positions handed to the three
  plot objects (rocket, inner body, outer body).
\<close>

definition animate_sim ::
  "series \<Rightarrow> nat \<Rightarrow> nat \<Rightarrow> error + (real \<times> real) \<times> (real \<times> real) \<times> (real \<times> real)" where
  "animate_sim s idx i =
     bind_err (rocket_at s idx i) (\<lambda>rocket.
     bind_err (getitem (x_earth s) i) (\<lambda>ex.
     bind_err (getitem (y_earth s) i) (\<lambda>ey.
     bind_err (getitem (x_mars s) i) (\<lambda>mx.
     bind_err (getitem (y_mars s) i) (\<lambda>my.
     Inr (rocket, (ex, ey), (mx, my)))))))"

text \<open>
  \<^verbatim>\<open>animate(i)\<close> of \<^verbatim>\<open>Hohmann_rocket_angle_updated.py\<close>: the same positions, and the
  two numbers written into the text overlays.
\<close>

record frame =
  rocket :: "real \<times> real"
  earth :: "real \<times> real"
  mars :: "real \<times> real"
  angle :: real
  distance :: real

definition animate_upd :: "series \<Rightarrow> nat \<Rightarrow> nat \<Rightarrow> error + frame" where
  "animate_upd s idx i =
     bind_err (rocket_at s idx i) (\<lambda>(rocket_x, rocket_y).
     bind_err (getitem (x_earth s) i) (\<lambda>ex.
     bind_err (getitem (y_earth s) i) (\<lambda>ey.
     bind_err (getitem (x_mars s) i) (\<lambda>mx.
     bind_err (getitem (y_mars s) i) (\<lambda>my.
       let dx = rocket_x - ex;
           dy = rocket_y - ey
       in Inr \<lparr> rocket = (rocket_x, rocket_y), earth = (ex, ey), mars = (mx, my),
                 angle = arctan2 dy dx * (180 / pi),
                 distance = sqrt (dx ^ 2 + dy ^ 2) \<rparr>)))))"

text \<open>
  The series computed after the animation in \<^verbatim>\<open>Hohmann_rocket_angle_updated.py\<close>:
  \<^verbatim>\<open>angles\<close>, one vectorised expression over the translated arc, and
  \<^verbatim>\<open>rocket_distances\<close>, a loop over \<^verbatim>\<open>range(len(t))\<close> that recomputes the intercept
  index in every iteration and appends one distance.
\<close>

definition angles :: "series \<Rightarrow> error + ndarray" where
  "angles s =
     bind_err (getitem (y_earth s) 0) (\<lambda>y0.
     bind_err (np_binop (-) (map (\<lambda>y. y + y0) (y_transfer s)) (y_earth s)) (\<lambda>dy.
     bind_err (getitem (x_earth s) 0) (\<lambda>x0.
     bind_err (np_binop (-) (map (\<lambda>x. x + x0) (x_transfer s)) (x_earth s)) (\<lambda>dx.
     bind_err (np_binop arctan2 dy dx) (\<lambda>a.
     Inr (map (\<lambda>v. v * (180 / pi)) a))))))"

fun rocket_distances_loop :: "series \<Rightarrow> nat list \<Rightarrow> ndarray \<Rightarrow> error + ndarray" where
  "rocket_distances_loop s [] acc = Inr acc"
| "rocket_distances_loop s (i # frames) acc =
     bind_err (intercept_idx s) (\<lambda>idx.
     bind_err (rocket_at s idx i) (\<lambda>(rocket_x, rocket_y).
     bind_err (getitem (x_earth s) i) (\<lambda>ex.
     bind_err (getitem (y_earth s) i) (\<lambda>ey.
       let dx = rocket_x - ex;
           dy = rocket_y - ey
       in rocket_distances_loop s frames (acc @ [sqrt (dx ^ 2 + dy ^ 2)])))))"

definition rocket_distances :: "series \<Rightarrow> error + ndarray" where
  "rocket_distances s = rocket_distances_loop s [0..<length (t_arr s)] []"

text \<open>
  A series is well shaped for \<open>n\<close> samples when each of its seven arrays has \<open>n\<close>
  entries, as the arrays of the scripts do for \<open>n = 1000\<close>.
\<close>

definition well_shaped :: "series \<Rightarrow> nat \<Rightarrow> bool" where
  "well_shaped s n \<longleftrightarrow>
     length (t_arr s) = n \<and> length (x_earth s) = n \<and> length (y_earth s) = n \<and>
     length (x_mars s) = n \<and> length (y_mars s) = n \<and>
     length (x_transfer s) = n \<and> length (y_transfer s) = n"

section \<open>Properties\<close>

subsection \<open>Basic facts about the primitives\<close>

lemma G_pos: "0 < G"
  by (simp add: G_def)

lemma length_linspace: "length (linspace a b n) = n"
  by (simp add: linspace_def)

lemma linspace_first: "linspace 0 b (Suc n) ! 0 = 0"
  by (cases n) (simp_all add: linspace_def nth_list_update upt_conv_Cons del: upt_Suc)

lemma linspace_nth:
  "i < n - 1 \<Longrightarrow> linspace a b n ! i = real i * ((b - a) / real (n - 1)) + a"
proof -
  assume a: "i < n - 1"
  then have "i < n" and "n \<noteq> 0" and "n \<noteq> 1" and "i \<noteq> n - 1" by simp_all
  then show ?thesis by (simp add: linspace_def nth_list_update)
qed

lemma linspace_last: "1 < n \<Longrightarrow> linspace a b n ! (n - 1) = b"
  by (simp add: linspace_def)

lemma bind_err_Inr [simp]: "bind_err (Inr v) f = f v"
  by (simp add: bind_err_def)

lemma bind_err_Inl [simp]: "bind_err (Inl e) f = Inl e"
  by (simp add: bind_err_def)

lemma getitem_Inr [simp]: "i < length xs \<Longrightarrow> getitem xs i = Inr (xs ! i)"
  by (simp add: getitem_def)

subsection \<open>The scan behind \<^verbatim>\<open>np.argmin\<close>\<close>

text \<open>
  The loop invariant of the scan: the remembered index is the first position of the
  least value among the entries already visited.
\<close>

lemma argmin_scan_correct:
  assumes "d = pre @ xs" and "length pre = i" and "bi < i" and "bv = d ! bi"
    and "\<forall>j<i. d ! bi \<le> d ! j" and "\<forall>j<bi. d ! bi < d ! j"
  shows "argmin_scan xs i bi bv < length d \<and>
         (\<forall>j<length d. d ! argmin_scan xs i bi bv \<le> d ! j) \<and>
         (\<forall>j<argmin_scan xs i bi bv. d ! argmin_scan xs i bi bv < d ! j)"
  using assms
proof (induction xs arbitrary: pre i bi bv)
  case Nil
  then show ?case by auto
next
  case (Cons x xs)
  have di: "d ! i = x" using Cons.prems(1,2) by (simp add: nth_append)
  have split: "d = (pre @ [x]) @ xs" using Cons.prems(1) by simp
  have len: "length (pre @ [x]) = Suc i" using Cons.prems(2) by simp
  show ?case
  proof (cases "x < bv")
    case True
    have a: "\<forall>j<Suc i. d ! i \<le> d ! j"
    proof (intro allI impI)
      fix j assume "j < Suc i"
      then consider "j < i" | "j = i" by linarith
      then show "d ! i \<le> d ! j"
      proof cases
        case 1
        then have "d ! bi \<le> d ! j" using Cons.prems(5) by simp
        then show ?thesis using True di Cons.prems(4) by simp
      next
        case 2
        then show ?thesis by simp
      qed
    qed
    have b: "\<forall>j<i. d ! i < d ! j"
    proof (intro allI impI)
      fix j assume "j < i"
      then have "d ! bi \<le> d ! j" using Cons.prems(5) by simp
      then show "d ! i < d ! j" using True di Cons.prems(4) by simp
    qed
    have "i < Suc i" by simp
    from Cons.IH [OF split len this di [symmetric] a b] True
    show ?thesis by simp
  next
    case False
    have a: "\<forall>j<Suc i. d ! bi \<le> d ! j"
    proof (intro allI impI)
      fix j assume "j < Suc i"
      then consider "j < i" | "j = i" by linarith
      then show "d ! bi \<le> d ! j"
      proof cases
        case 1
        then show ?thesis using Cons.prems(5) by simp
      next
        case 2
        then show ?thesis using False di Cons.prems(4) by simp
      qed
    qed
    have "bi < Suc i" using Cons.prems(3) by simp
    from Cons.IH [OF split len this Cons.prems(4) a Cons.prems(6)] False
    show ?thesis by simp
  qed
qed

lemma np_argmin_correct:
  assumes "d \<noteq> []"
  shows "\<exists>k. np_argmin d = Inr k \<and> k < length d \<and>
             (\<forall>j<length d. d ! k \<le> d ! j) \<and> (\<forall>j<k. d ! k < d ! j)"
proof -
  from assms obtain x rest where d: "d = x # rest" by (cases d) auto
  have "argmin_scan rest 1 0 x < length d \<and>
         (\<forall>j<length d. d ! argmin_scan rest 1 0 x \<le> d ! j) \<and>
         (\<forall>j<argmin_scan rest 1 0 x. d ! argmin_scan rest 1 0 x < d ! j)"
    by (rule argmin_scan_correct [where pre = "[x]"]) (simp_all add: d)
  then show ?thesis by (simp add: np_argmin_def d)
qed

lemma np_argmin_Inl_iff: "np_argmin d = Inl e \<longleftrightarrow> d = [] \<and> e = ValueError_argmin_empty"
  by (cases d) (auto simp: np_argmin_def)

lemma np_binop_same_length:
  "length xs = length ys \<Longrightarrow> np_binop f xs ys = Inr (map2 f xs ys)"
  by (simp add: np_binop_def)

lemma separation_same_length:
  assumes "length xs = n" and "length ys = n" and "length xm = n" and "length ym = n"
  shows "separation xs ys xm ym =
           Inr (map (\<lambda>i. sqrt ((xs ! i - xm ! i) ^ 2 + (ys ! i - ym ! i) ^ 2)) [0..<n])"
proof -
  have "map sqrt (map2 (+) (map (\<lambda>d. d ^ 2) (map2 (-) xs xm)) (map (\<lambda>d. d ^ 2) (map2 (-) ys ym)))
        = map (\<lambda>i. sqrt ((xs ! i - xm ! i) ^ 2 + (ys ! i - ym ! i) ^ 2)) [0..<n]"
    using assms by (intro nth_equalityI) simp_all
  then show ?thesis using assms by (simp add: separation_def np_binop_same_length)
qed

lemma findClosestApproach_same_length:
  assumes "length tr = n" and "length tg = n"
  shows "findClosestApproach tr tg = np_argmin (map (\<lambda>i. dist2d (tr ! i) (tg ! i)) [0..<n])"
proof -
  have e: "map (\<lambda>i. sqrt ((map fst tr ! i - map fst tg ! i) ^ 2 + (map snd tr ! i - map snd tg ! i) ^ 2)) [0..<n]
        = map (\<lambda>i. dist2d (tr ! i) (tg ! i)) [0..<n]"
    by (rule map_cong) (simp_all add: assms dist2d_def)
  have "separation (map fst tr) (map snd tr) (map fst tg) (map snd tg) =
          Inr (map (\<lambda>i. sqrt ((map fst tr ! i - map fst tg ! i) ^ 2 + (map snd tr ! i - map snd tg ! i) ^ 2)) [0..<n])"
    by (rule separation_same_length) (simp_all add: assms)
  then show ?thesis by (simp only: findClosestApproach_def e bind_err_Inr)
qed

subsection \<open>Periods and position series\<close>

text \<open>
  Claim C6. For every radius \<open>r > 0\<close> and central mass \<open>M > 0\<close> the period
  \<open>2\<pi> sqrt (r\<^sup>3 / (G M))\<close> is strictly positive, and the period of the orbit of radius
  \<open>4 r\<close> is 8 times the period of the orbit of radius \<open>r\<close> (the scaling \<open>r\<^sup>3\<^sup>/\<^sup>2\<close>). Over the
  reals the ratio is exactly 8.
\<close>

theorem computePeriod_positive_and_scaling:
  assumes "0 < r" and "0 < M"
  shows "0 < computePeriod r M \<and> computePeriod (4 * r) M / computePeriod r M = 8"
proof -
  have q: "0 < r ^ 3 / (G * M)" using assms G_pos by simp
  then have s: "0 < sqrt (r ^ 3 / (G * M))" by simp
  have pos: "0 < computePeriod r M" unfolding computePeriod_def using s by simp
  have e: "sqrt 64 = 8" using real_sqrt_abs [of 8] by simp
  have "(4 * r) ^ 3 / (G * M) = 64 * (r ^ 3 / (G * M))"
    by (simp add: power_mult_distrib)
  then have "sqrt ((4 * r) ^ 3 / (G * M)) = sqrt 64 * sqrt (r ^ 3 / (G * M))"
    by (simp only: real_sqrt_mult)
  then have "sqrt ((4 * r) ^ 3 / (G * M)) = 8 * sqrt (r ^ 3 / (G * M))"
    by (simp only: e)
  then have "computePeriod (4 * r) M = 8 * computePeriod r M"
    by (simp add: computePeriod_def)
  with pos show ?thesis by simp
qed

theorem computePeriod_positive_and_scaling_witness:
  "0 < r_earth_orbit \<and> 0 < M_sun \<and> 0 < T_earth \<and>
   computePeriod (4 * r_earth_orbit) M_sun / T_earth = 8"
  using computePeriod_positive_and_scaling [of r_earth_orbit M_sun]
  by (simp add: r_earth_orbit_def M_sun_def T_earth_def)

text \<open>
  Claim C7. For a radius \<open>r > 0\<close>, a period \<open>T > 0\<close> and any phase offset, every point of
  the series returned by \<open>computeCircularPositions\<close> satisfies \<open>x\<^sup>2 + y\<^sup>2 = r\<^sup>2\<close>, so its
  distance from the origin is \<open>r\<close>; and where the sample instant is 0 and the phase
  offset is 0 the point is \<open>(r, 0)\<close>. Over the reals both hold exactly.
\<close>

theorem circular_positions_on_circle:
  assumes "0 < r" and "0 < T" and "i < length ts"
  shows "(case computeCircularPositions r T phase ts ! i of (x, y) \<Rightarrow>
            x ^ 2 + y ^ 2 = r ^ 2 \<and> sqrt (x ^ 2 + y ^ 2) = r) \<and>
         (ts ! i = 0 \<longrightarrow> computeCircularPositions r T 0 ts ! i = (r, 0))"
proof -
  have "(r * cos a)\<^sup>2 + (r * sin a)\<^sup>2 = r\<^sup>2" for a
  proof -
    have "(r * cos a)\<^sup>2 + (r * sin a)\<^sup>2 = r\<^sup>2 * ((cos a)\<^sup>2 + (sin a)\<^sup>2)"
      by (simp only: power_mult_distrib distrib_left)
    also have "\<dots> = r\<^sup>2" by (simp only: cos_squared_eq) simp
    finally show ?thesis .
  qed
  then show ?thesis using assms
    by (simp add: computeCircularPositions_def orbit_x_def orbit_y_def orbit_theta_def)
qed

theorem circular_positions_on_circle_witness:
  "(0::real) < 2 \<and> (0::real) < 1 \<and> 0 < length [0::real] \<and>
   (case computeCircularPositions 2 1 0 [0] ! 0 of (x, y) \<Rightarrow>
      x ^ 2 + y ^ 2 = 2 ^ 2 \<and> sqrt (x ^ 2 + y ^ 2) = 2) \<and>
   [0::real] ! 0 = 0 \<and> computeCircularPositions 2 1 0 [0] ! 0 = (2, 0)"
  using circular_positions_on_circle [of 2 1 0 "[0]" 0] by simp

text \<open>
  The inner and outer body of either script are instances of
  \<open>computeCircularPositions\<close> on the time grid of the scripts.
\<close>

lemma innerPositions_script:
  "innerPositions (script phase f) = computeCircularPositions r_earth_orbit T_earth 0 t_grid"
  by (simp add: innerPositions_def script_def computeCircularPositions_def theta_earth_def
      orbit_theta_def)

lemma targetPositions_script:
  "targetPositions (script phase f) = computeCircularPositions r_mars_orbit T_mars phase t_grid"
  by (simp add: targetPositions_def script_def computeCircularPositions_def)

text \<open>
  Claim C8. For positive radii and a positive central mass, the transfer arc evaluated
  on a time grid that starts at 0 (any \<^verbatim>\<open>np.linspace(0, stop, num)\<close> with at least one
  sample) has the point \<open>(0, 0)\<close> as its first entry; the first entries of the arcs of the
  two scripts are \<open>(0, 0)\<close> as well.
\<close>

theorem transfer_arc_origin:
  assumes "0 < innerRadius" and "0 < outerRadius" and "0 < M"
  shows "computeTransferArc innerRadius outerRadius M (linspace 0 stop (Suc n)) ! 0 = (0, 0) \<and>
         (x_transfer script_sim ! 0, y_transfer script_sim ! 0) = (0, 0) \<and>
         (x_transfer script_upd ! 0, y_transfer script_upd ! 0) = (0, 0)"
proof -
  have f: "linspace 0 stop (Suc n) ! 0 = 0" by (rule linspace_first)
  have l: "0 < length (linspace 0 stop (Suc n))" by (simp add: length_linspace)
  have g: "t_grid ! 0 = 0" unfolding t_grid_def N_samples_def
    using linspace_first [of T_mars 999] by simp
  have lg: "0 < length t_grid" by (simp add: t_grid_def N_samples_def length_linspace)
  have "computeTransferArc innerRadius outerRadius M (linspace 0 stop (Suc n)) ! 0 = (0, 0)"
    using f l
    by (simp add: computeTransferArc_def Let_def transfer_theta_def transfer_x_sim_def
        transfer_y_def)
  moreover have "(x_transfer script_sim ! 0, y_transfer script_sim ! 0) = (0, 0)"
    using g lg
    by (simp add: script_sim_def script_def theta_transfer_def transfer_theta_def
        transfer_x_sim_def transfer_y_def)
  moreover have "(x_transfer script_upd ! 0, y_transfer script_upd ! 0) = (0, 0)"
    using g lg
    by (simp add: script_upd_def script_def theta_transfer_def transfer_theta_def
        transfer_x_upd_def transfer_y_def)
  ultimately show ?thesis by simp
qed

theorem transfer_arc_origin_witness:
  "0 < r_earth_orbit \<and> 0 < r_mars_orbit \<and> 0 < M_sun \<and>
   computeTransferArc r_earth_orbit r_mars_orbit M_sun (linspace 0 T_mars (Suc 999)) ! 0 = (0, 0)"
  using transfer_arc_origin [of r_earth_orbit r_mars_orbit M_sun T_mars 999]
  by (simp add: r_earth_orbit_def r_mars_orbit_def M_sun_def)


subsection \<open>Closest approach\<close>

text \<open>
  Claim C5. For two non-empty sequences of equal length, \<open>findClosestApproach\<close> returns
  an index \<open>k\<close> whose distance is least among all samples, and every index before \<open>k\<close>
  has a strictly larger distance: the first index of the global minimum. On two
  identical sequences it returns 0.
\<close>

theorem findClosestApproach_stable_argmin:
  assumes "length tr = length tg" and "tr \<noteq> []"
  shows "(\<exists>k. findClosestApproach tr tg = Inr k \<and> k < length tr \<and>
             (\<forall>j<length tr. dist2d (tr ! k) (tg ! k) \<le> dist2d (tr ! j) (tg ! j)) \<and>
             (\<forall>j<k. dist2d (tr ! k) (tg ! k) < dist2d (tr ! j) (tg ! j))) \<and>
         findClosestApproach tr tr = Inr 0"
proof -
  let ?d = "map (\<lambda>i. dist2d (tr ! i) (tg ! i)) [0..<length tr]"
  have ne: "?d \<noteq> []" using assms(2) by simp
  from np_argmin_correct [OF ne] obtain k where k: "np_argmin ?d = Inr k" "k < length ?d"
    "\<forall>j<length ?d. ?d ! k \<le> ?d ! j" "\<forall>j<k. ?d ! k < ?d ! j" by blast
  have f: "findClosestApproach tr tg = Inr k"
    using findClosestApproach_same_length [OF refl assms(1) [symmetric]] k(1) by simp
  have kl: "k < length tr" using k(2) by simp
  have m: "\<forall>j<length tr. dist2d (tr ! k) (tg ! k) \<le> dist2d (tr ! j) (tg ! j)"
    using k(3) kl by simp
  have s: "\<forall>j<k. dist2d (tr ! k) (tg ! k) < dist2d (tr ! j) (tg ! j)"
    using k(4) kl by simp
  let ?z = "map (\<lambda>i. dist2d (tr ! i) (tr ! i)) [0..<length tr]"
  have nz: "?z \<noteq> []" using assms(2) by simp
  from np_argmin_correct [OF nz] obtain k0 where k0: "np_argmin ?z = Inr k0" "k0 < length ?z"
    "\<forall>j<k0. ?z ! k0 < ?z ! j" by blast
  have "k0 = 0"
  proof (rule ccontr)
    assume "k0 \<noteq> 0"
    then have "0 < k0" by simp
    with k0(3) have "?z ! k0 < ?z ! 0" by blast
    moreover have "0 < length tr" using assms(2) by simp
    ultimately show False using k0(2) by (simp add: dist2d_def)
  qed
  then have "findClosestApproach tr tr = Inr 0"
    using findClosestApproach_same_length [OF refl refl, of tr] k0(1) by simp
  with f kl m s show ?thesis by blast
qed

theorem findClosestApproach_stable_argmin_witness:
  "length [(0::real, 0::real), (3, 4)] = length [(1::real, 0::real), (3, 4)] \<and>
   [(0::real, 0::real), (3, 4)] \<noteq> [] \<and>
   findClosestApproach [(0, 0), (3, 4)] [(0, 0), (3, 4)] = Inr 0"
  using findClosestApproach_stable_argmin [of "[(0, 0), (3, 4)]" "[(1, 0), (3, 4)]"]
  by simp

text \<open>
  The outcome of the array arithmetic in \<open>separation\<close> depends on the lengths only.
\<close>

lemma np_binop_Inl_iff:
  "np_binop f xs ys = Inl e \<longleftrightarrow>
     e = ValueError_broadcast \<and> length xs \<noteq> length ys \<and> length xs \<noteq> 1 \<and> length ys \<noteq> 1"
  by (auto simp: np_binop_def)

lemma np_binop_length:
  "np_binop f xs ys = Inr zs \<Longrightarrow>
     length zs = (if length xs = length ys then length xs
                  else if length xs = 1 then length ys else length xs)"
  by (auto simp: np_binop_def split: if_splits)

lemma np_binop_cases:
  obtains (err) "length xs \<noteq> length ys" "length xs \<noteq> 1" "length ys \<noteq> 1"
      "np_binop f xs ys = Inl ValueError_broadcast"
  | (ok) zs where "np_binop f xs ys = Inr zs"
      "length zs = (if length xs = length ys then length xs
                  else if length xs = 1 then length ys else length xs)"
      "length xs = length ys \<or> length xs = 1 \<or> length ys = 1"
  by (cases "np_binop f xs ys") (auto simp: np_binop_def split: if_splits)

lemma separation_points_cases:
  fixes tr tg :: "(real \<times> real) list"
  defines "sep \<equiv> separation (map fst tr) (map snd tr) (map fst tg) (map snd tg)"
  shows "(length tr \<noteq> length tg \<and> length tr \<noteq> 1 \<and> length tg \<noteq> 1 \<and> sep = Inl ValueError_broadcast) \<or>
         ((length tr = length tg \<or> length tr = 1 \<or> length tg = 1) \<and>
          (\<exists>d. sep = Inr d \<and> length d = (if length tr = length tg then length tr
                  else if length tr = 1 then length tg else length tr)))"
proof (cases "length tr = length tg \<or> length tr = 1 \<or> length tg = 1")
  case False
  then have "np_binop (-) (map fst tr) (map fst tg) = Inl ValueError_broadcast"
    by (simp add: np_binop_def)
  then show ?thesis using False by (simp add: sep_def separation_def)
next
  case True
  let ?n = "if length tr = length tg then length tr
                  else if length tr = 1 then length tg else length tr"
  obtain dx where dx: "np_binop (-) (map fst tr) (map fst tg) = Inr dx" "length dx = ?n"
    using True by (cases rule: np_binop_cases [of "map fst tr" "map fst tg" "(-)"]) auto
  obtain dy where dy: "np_binop (-) (map snd tr) (map snd tg) = Inr dy" "length dy = ?n"
    using True by (cases rule: np_binop_cases [of "map snd tr" "map snd tg" "(-)"]) auto
  have "np_binop (+) (map (\<lambda>d. d ^ 2) dx) (map (\<lambda>d. d ^ 2) dy)
          = Inr (map2 (+) (map (\<lambda>d. d ^ 2) dx) (map (\<lambda>d. d ^ 2) dy))"
    using dx(2) dy(2) by (simp add: np_binop_same_length)
  then have "sep = Inr (map sqrt (map2 (+) (map (\<lambda>d. d ^ 2) dx) (map (\<lambda>d. d ^ 2) dy)))"
    using dx(1) dy(1) by (simp add: sep_def separation_def)
  moreover have "length (map sqrt (map2 (+) (map (\<lambda>d. d ^ 2) dx) (map (\<lambda>d. d ^ 2) dy))) = ?n"
    using dx(2) dy(2) by simp
  ultimately show ?thesis using True by blast
qed

text \<open>
  Claim C2 (as amended). The scripts perform no validation of their own; the failures
  are NumPy's. \<open>findClosestApproach\<close> raises the empty-\<^verbatim>\<open>argmin\<close> error exactly when one
  sequence is empty and the other has at most one point; it raises the broadcast error
  exactly when the lengths differ and neither is 1; and it returns an index (below the
  longer length) exactly when both sequences are non-empty and either have equal length
  or one of them has length 1, which NumPy stretches.
\<close>

theorem findClosestApproach_outcomes:
  "(findClosestApproach tr tg = Inl ValueError_argmin_empty \<longleftrightarrow>
      (tr = [] \<and> length tg \<le> 1) \<or> (tg = [] \<and> length tr \<le> 1)) \<and>
   (findClosestApproach tr tg = Inl ValueError_broadcast \<longleftrightarrow>
      length tr \<noteq> length tg \<and> length tr \<noteq> 1 \<and> length tg \<noteq> 1) \<and>
   ((\<exists>k. findClosestApproach tr tg = Inr k \<and> k < max (length tr) (length tg)) \<longleftrightarrow>
      tr \<noteq> [] \<and> tg \<noteq> [] \<and> (length tr = length tg \<or> length tr = 1 \<or> length tg = 1)) \<and>
   findClosestApproach tr tg \<noteq> Inl IndexError"
proof -
  let ?sep = "separation (map fst tr) (map snd tr) (map fst tg) (map snd tg)"
  let ?n = "if length tr = length tg then length tr
                  else if length tr = 1 then length tg else length tr"
  from separation_points_cases [of tr tg]
  consider (err) "length tr \<noteq> length tg" "length tr \<noteq> 1" "length tg \<noteq> 1"
      "?sep = Inl ValueError_broadcast"
    | (ok) d where "length tr = length tg \<or> length tr = 1 \<or> length tg = 1"
      "?sep = Inr d" "length d = ?n"
    by blast
  then show ?thesis
  proof cases
    case err
    then have "findClosestApproach tr tg = Inl ValueError_broadcast"
      by (simp add: findClosestApproach_def)
    moreover have "\<not> ((tr = [] \<and> length tg \<le> 1) \<or> (tg = [] \<and> length tr \<le> 1))"
      using err(1-3) by (cases tr; cases tg) auto
    moreover have "\<not> (tr \<noteq> [] \<and> tg \<noteq> [] \<and> (length tr = length tg \<or> length tr = 1 \<or> length tg = 1))"
      using err(1-3) by simp
    ultimately show ?thesis using err(1-3) by simp
  next
    case ok
    have f: "findClosestApproach tr tg = np_argmin d"
      using ok(2) by (simp add: findClosestApproach_def)
    show ?thesis
    proof (cases "d = []")
      case True
      then have "findClosestApproach tr tg = Inl ValueError_argmin_empty"
        using f by (simp add: np_argmin_def)
      moreover have "(tr = [] \<and> length tg \<le> 1) \<or> (tg = [] \<and> length tr \<le> 1)"
        using True ok(1,3) by (auto split: if_splits)
      ultimately show ?thesis using ok(1) by auto
    next
      case False
      from np_argmin_correct [OF False] obtain k where k: "np_argmin d = Inr k" "k < length d"
        by blast
      have ne: "tr \<noteq> [] \<and> tg \<noteq> []" using False ok(1,3) by (auto split: if_splits)
      have "length d \<le> max (length tr) (length tg)" using ok(3) by (auto split: if_splits)
      then have "k < max (length tr) (length tg)" using k(2) by linarith
      then show ?thesis using f k(1) ne ok(1) by auto
    qed
  qed
qed

theorem findClosestApproach_outcomes_witness:
  "findClosestApproach [(0, 0)] [] = Inl ValueError_argmin_empty \<and>
   findClosestApproach [] [(1, 0), (0, 0)] = Inl ValueError_broadcast \<and>
   findClosestApproach [(0, 0), (1, 1)] [(1, 0), (0, 0), (2, 0)] = Inl ValueError_broadcast"
  using findClosestApproach_outcomes [of "[(0, 0)]" "[]"]
    findClosestApproach_outcomes [of "[]" "[(1, 0), (0, 0)]"]
    findClosestApproach_outcomes [of "[(0, 0), (1, 1)]" "[(1, 0), (0, 0), (2, 0)]"]
  by simp

text \<open>
  Claim C2 as stated fails: a one-point sequence against a three-point sequence has
  different lengths, yet the search returns an index.
\<close>

theorem findClosestApproach_broadcast_counterexample:
  "length [(0::real, 0::real)] \<noteq> length [(1::real, 0::real), (0, 0), (2, 0)] \<and>
   findClosestApproach [(0, 0)] [(1, 0), (0, 0), (2, 0)] = Inr 1"
  by (simp add: findClosestApproach_def separation_def np_binop_def np_argmin_def)

subsection \<open>The composed trajectory\<close>

lemma well_shaped_script:
  assumes "\<And>a th. length (f a th) = length th"
  shows "well_shaped (script phase f) N_samples"
  by (simp add: well_shaped_def script_def t_grid_def length_linspace orbit_x_def orbit_y_def
      orbit_theta_def theta_earth_def theta_transfer_def transfer_theta_def transfer_y_def assms)

lemma well_shaped_script_sim: "well_shaped script_sim N_samples"
  unfolding script_sim_def by (rule well_shaped_script) (simp add: transfer_x_sim_def)

lemma well_shaped_script_upd: "well_shaped script_upd N_samples"
  unfolding script_upd_def by (rule well_shaped_script) (simp add: transfer_x_upd_def)

lemma shared_frame_nth:
  assumes "well_shaped s n" and "i < n"
  shows "transferPositionsInSharedFrame s ! i =
           (x_transfer s ! i + x_earth s ! 0, y_transfer s ! i + y_earth s ! 0)"
    and "targetPositions s ! i = (x_mars s ! i, y_mars s ! i)"
    and "innerPositions s ! i = (x_earth s ! i, y_earth s ! i)"
  using assms
  by (simp_all add: well_shaped_def transferPositionsInSharedFrame_def targetPositions_def
      innerPositions_def)

lemma shared_frame_length:
  assumes "well_shaped s n"
  shows "length (transferPositionsInSharedFrame s) = n" and "length (targetPositions s) = n"
    and "length (innerPositions s) = n"
  using assms
  by (simp_all add: well_shaped_def transferPositionsInSharedFrame_def targetPositions_def
      innerPositions_def)

lemma rocket_at_well_shaped:
  assumes "well_shaped s n" and "i < n"
  shows "rocket_at s idx i =
           Inr (if i < idx then transferPositionsInSharedFrame s ! i else targetPositions s ! i)"
proof -
  have "0 < n" using assms(2) by simp
  then show ?thesis using assms shared_frame_nth [OF assms]
    by (simp add: rocket_at_def well_shaped_def)
qed

lemma compose_frames_well_shaped:
  assumes "well_shaped s n" and "\<forall>i\<in>set frames. i < n"
  shows "compose_frames s idx frames acc =
           Inr (acc @ map (\<lambda>i. if i < idx then transferPositionsInSharedFrame s ! i
                                else targetPositions s ! i) frames)"
  using assms(2)
proof (induction frames arbitrary: acc)
  case Nil
  then show ?case by simp
next
  case (Cons i frames)
  then have "i < n" by simp
  then show ?case using Cons rocket_at_well_shaped [OF assms(1), of i idx] by simp
qed

lemma composeTrajectory_well_shaped:
  assumes "well_shaped s n"
  shows "composeTrajectory s idx =
           Inr (map (\<lambda>i. if i < idx then transferPositionsInSharedFrame s ! i
                          else targetPositions s ! i) [0..<n])"
proof -
  have "length (t_arr s) = n" using assms by (simp add: well_shaped_def)
  then show ?thesis
    using compose_frames_well_shaped [OF assms, of "[0..<n]" idx "[]"]
    by (simp add: composeTrajectory_def)
qed

text \<open>
  Claim C4. On arrays of \<open>n\<close> samples the composed trajectory has \<open>n\<close> points; the point
  of frame \<open>i\<close> is what the two-branch selection of \<^verbatim>\<open>animate\<close> yields, namely the
  translated transfer position \<open>i\<close> when \<open>i\<close> is below the intercept index and the target
  position \<open>i\<close> otherwise. In particular the frame before the intercept index is on the
  arc, and the frame at the index and the one after it are on the target.
\<close>

theorem composeTrajectory_selects:
  assumes "well_shaped s n"
  shows "\<exists>ps. composeTrajectory s idx = Inr ps \<and> length ps = n \<and>
           (\<forall>i<n. rocket_at s idx i = Inr (ps ! i) \<and>
                   (i < idx \<longrightarrow> ps ! i = transferPositionsInSharedFrame s ! i) \<and>
                   (idx \<le> i \<longrightarrow> ps ! i = targetPositions s ! i)) \<and>
           (0 < idx \<and> idx \<le> n \<longrightarrow> ps ! (idx - 1) = transferPositionsInSharedFrame s ! (idx - 1)) \<and>
           (idx < n \<longrightarrow> ps ! idx = targetPositions s ! idx) \<and>
           (idx + 1 < n \<longrightarrow> ps ! (idx + 1) = targetPositions s ! (idx + 1))"
proof -
  let ?ps = "map (\<lambda>i. if i < idx then transferPositionsInSharedFrame s ! i
                          else targetPositions s ! i) [0..<n]"
  have c: "composeTrajectory s idx = Inr ?ps" by (rule composeTrajectory_well_shaped [OF assms])
  have l: "length ?ps = n" by simp
  have a: "\<forall>i<n. rocket_at s idx i = Inr (?ps ! i) \<and>
                   (i < idx \<longrightarrow> ?ps ! i = transferPositionsInSharedFrame s ! i) \<and>
                   (idx \<le> i \<longrightarrow> ?ps ! i = targetPositions s ! i)"
    using rocket_at_well_shaped [OF assms] by simp
  have b1: "0 < idx \<and> idx \<le> n \<longrightarrow> ?ps ! (idx - 1) = transferPositionsInSharedFrame s ! (idx - 1)"
  proof (intro impI)
    assume "0 < idx \<and> idx \<le> n"
    then have "idx - 1 < n" and "idx - 1 < idx" by linarith+
    then show "?ps ! (idx - 1) = transferPositionsInSharedFrame s ! (idx - 1)" by simp
  qed
  have b2: "idx < n \<longrightarrow> ?ps ! idx = targetPositions s ! idx" by simp
  have b3: "idx + 1 < n \<longrightarrow> ?ps ! (idx + 1) = targetPositions s ! (idx + 1)" by simp
  from c l a b1 b2 b3 show ?thesis by blast
qed

theorem composeTrajectory_selects_witness:
  "well_shaped \<lparr> t_arr = [0, 1, 2], x_earth = [1, 0, -1], y_earth = [0, 1, 0],
          x_mars = [2, 0, -2], y_mars = [0, 2, 0],
          x_transfer = [0, -1, -3], y_transfer = [0, 1, 0] \<rparr> 3 \<and>
   composeTrajectory \<lparr> t_arr = [0, 1, 2], x_earth = [1, 0, -1], y_earth = [0, 1, 0],
          x_mars = [2, 0, -2], y_mars = [0, 2, 0],
          x_transfer = [0, -1, -3], y_transfer = [0, 1, 0] \<rparr> 1 = Inr [(1, 0), (0, 2), (-2, 0)]"
  using composeTrajectory_selects [of "\<lparr> t_arr = [0, 1, 2], x_earth = [1, 0, -1], y_earth = [0, 1, 0],
          x_mars = [2, 0, -2], y_mars = [0, 2, 0],
          x_transfer = [0, -1, -3], y_transfer = [0, 1, 0] \<rparr>" 3 1]
  by (simp add: well_shaped_def composeTrajectory_def rocket_at_def upt_conv_Cons del: upt_Suc)

lemma distances_to_mars_well_shaped:
  assumes "well_shaped s n" and "0 < n"
  shows "distances_to_mars s =
           Inr (map (\<lambda>i. dist2d (transferPositionsInSharedFrame s ! i) (targetPositions s ! i)) [0..<n])"
proof -
  have e: "map (\<lambda>i. sqrt ((map (\<lambda>x. x + x_earth s ! 0) (x_transfer s) ! i - x_mars s ! i) ^ 2 +
                          (map (\<lambda>y. y + y_earth s ! 0) (y_transfer s) ! i - y_mars s ! i) ^ 2)) [0..<n]
        = map (\<lambda>i. dist2d (transferPositionsInSharedFrame s ! i) (targetPositions s ! i)) [0..<n]"
    using assms(1)
    by (intro map_cong)
       (simp_all add: dist2d_def well_shaped_def transferPositionsInSharedFrame_def
          targetPositions_def)
  have "separation (map (\<lambda>x. x + x_earth s ! 0) (x_transfer s))
                   (map (\<lambda>y. y + y_earth s ! 0) (y_transfer s)) (x_mars s) (y_mars s)
        = Inr (map (\<lambda>i. sqrt ((map (\<lambda>x. x + x_earth s ! 0) (x_transfer s) ! i - x_mars s ! i) ^ 2 +
                          (map (\<lambda>y. y + y_earth s ! 0) (y_transfer s) ! i - y_mars s ! i) ^ 2)) [0..<n])"
    using assms(1) by (intro separation_same_length) (simp_all add: well_shaped_def)
  then show ?thesis using assms by (simp add: distances_to_mars_def well_shaped_def e)
qed

lemma intercept_idx_well_shaped:
  assumes "well_shaped s n" and "0 < n"
  shows "intercept_idx s = findClosestApproach (transferPositionsInSharedFrame s) (targetPositions s)"
    and "\<exists>k. intercept_idx s = Inr k \<and> k < n \<and>
           (\<forall>j<n. dist2d (transferPositionsInSharedFrame s ! k) (targetPositions s ! k)
                    \<le> dist2d (transferPositionsInSharedFrame s ! j) (targetPositions s ! j))"
proof -
  let ?tr = "transferPositionsInSharedFrame s" and ?tg = "targetPositions s"
  have l: "length ?tr = n" "length ?tg = n" using shared_frame_length [OF assms(1)] by simp_all
  have i: "intercept_idx s = np_argmin (map (\<lambda>i. dist2d (?tr ! i) (?tg ! i)) [0..<n])"
    by (simp add: intercept_idx_def distances_to_mars_well_shaped [OF assms])
  then show f: "intercept_idx s = findClosestApproach ?tr ?tg"
    using findClosestApproach_same_length [OF l] by simp
  let ?d = "map (\<lambda>i. dist2d (?tr ! i) (?tg ! i)) [0..<n]"
  have "?d \<noteq> []" using assms(2) by simp
  from np_argmin_correct [OF this] obtain k where k: "np_argmin ?d = Inr k" "k < length ?d"
    "\<forall>j<length ?d. ?d ! k \<le> ?d ! j" by blast
  have "k < n" using k(2) by simp
  moreover have "\<forall>j<n. dist2d (?tr ! k) (?tg ! k) \<le> dist2d (?tr ! j) (?tg ! j)"
    using k(3) \<open>k < n\<close> by simp
  ultimately show "\<exists>k. intercept_idx s = Inr k \<and> k < n \<and>
           (\<forall>j<n. dist2d (?tr ! k) (?tg ! k) \<le> dist2d (?tr ! j) (?tg ! j))"
    using i k(1) by simp
qed

lemma animate_sim_well_shaped:
  assumes "well_shaped s n" and "i < n"
  shows "animate_sim s idx i =
           Inr (if i < idx then transferPositionsInSharedFrame s ! i else targetPositions s ! i,
                innerPositions s ! i, targetPositions s ! i)"
  using assms shared_frame_nth [OF assms] rocket_at_well_shaped [OF assms, of idx]
  by (simp add: animate_sim_def well_shaped_def)

lemma animate_upd_well_shaped:
  fixes idx :: nat
  assumes "well_shaped s n" and "i < n"
  defines "p \<equiv> (if i < idx then transferPositionsInSharedFrame s ! i else targetPositions s ! i)"
  shows "animate_upd s idx i =
           Inr \<lparr> rocket = p, earth = innerPositions s ! i, mars = targetPositions s ! i,
                 angle = arctan2 (snd p - snd (innerPositions s ! i))
                                 (fst p - fst (innerPositions s ! i)) * (180 / pi),
                 distance = dist2d p (innerPositions s ! i) \<rparr>"
proof -
  have r: "rocket_at s idx i = Inr (fst p, snd p)"
    using rocket_at_well_shaped [OF assms(1,2), of idx] by (simp add: p_def)
  show ?thesis using assms(1,2) shared_frame_nth [OF assms(1,2)]
    by (simp add: animate_upd_def r well_shaped_def dist2d_def Let_def case_prod_beta)
qed

text \<open>
  Claim C10. In both scripts the intercept index exists (the distance array has 1000
  entries, so \<^verbatim>\<open>argmin\<close> does not fail) and is at most \<open>N - 1\<close>; and for every frame
  index below \<open>N\<close> the animation step returns a frame, that is, none of its array reads
  is out of range.
\<close>

theorem intercept_idx_in_bounds:
  "(\<exists>k. intercept_idx script_sim = Inr k \<and> k \<le> N_samples - 1 \<and>
        (\<forall>i<N_samples. \<exists>fr. animate_sim script_sim k i = Inr fr)) \<and>
   (\<exists>k. intercept_idx script_upd = Inr k \<and> k \<le> N_samples - 1 \<and>
        (\<forall>i<N_samples. \<exists>fr. animate_upd script_upd k i = Inr fr))"
proof -
  have n: "0 < N_samples" by (simp add: N_samples_def)
  from intercept_idx_well_shaped(2) [OF well_shaped_script_sim n]
  obtain k1 where k1: "intercept_idx script_sim = Inr k1" "k1 < N_samples" by blast
  from intercept_idx_well_shaped(2) [OF well_shaped_script_upd n]
  obtain k2 where k2: "intercept_idx script_upd = Inr k2" "k2 < N_samples" by blast
  have a1: "\<forall>i<N_samples. \<exists>fr. animate_sim script_sim k1 i = Inr fr"
    using animate_sim_well_shaped [OF well_shaped_script_sim] by blast
  have a2: "\<forall>i<N_samples. \<exists>fr. animate_upd script_upd k2 i = Inr fr"
    using animate_upd_well_shaped [OF well_shaped_script_upd] by blast
  have "k1 \<le> N_samples - 1" "k2 \<le> N_samples - 1" using k1(2) k2(2) by simp_all
  with k1(1) k2(1) a1 a2 show ?thesis by blast
qed

theorem intercept_idx_in_bounds_witness:
  "\<not> isl (intercept_idx script_sim) \<and>
   \<not> isl (animate_sim script_sim (projr (intercept_idx script_sim)) 999) \<and>
   \<not> isl (intercept_idx script_upd) \<and>
   \<not> isl (animate_upd script_upd (projr (intercept_idx script_upd)) 999)"
proof -
  have "(999::nat) < N_samples" by (simp add: N_samples_def)
  then show ?thesis using intercept_idx_in_bounds by fastforce
qed

subsection \<open>The series computed after the animation\<close>

lemma rocket_distances_loop_well_shaped:
  assumes "well_shaped s n" and "0 < n" and "intercept_idx s = Inr k" and "\<forall>i\<in>set frames. i < n"
  shows "rocket_distances_loop s frames acc =
           Inr (acc @ map (\<lambda>i. dist2d (if i < k then transferPositionsInSharedFrame s ! i
                                        else targetPositions s ! i) (innerPositions s ! i)) frames)"
  using assms(4)
proof (induction frames arbitrary: acc)
  case Nil
  then show ?case by simp
next
  case (Cons i frames)
  then have i: "i < n" by simp
  let ?p = "if i < k then transferPositionsInSharedFrame s ! i else targetPositions s ! i"
  have r: "rocket_at s k i = Inr (fst ?p, snd ?p)"
    using rocket_at_well_shaped [OF assms(1) i, of k] by simp
  have g: "getitem (x_earth s) i = Inr (x_earth s ! i)" "getitem (y_earth s) i = Inr (y_earth s ! i)"
    using assms(1) i by (simp_all add: well_shaped_def)
  have "rocket_distances_loop s (i # frames) acc =
          rocket_distances_loop s frames (acc @ [dist2d ?p (innerPositions s ! i)])"
    using shared_frame_nth(3) [OF assms(1) i]
    by (simp add: assms(3) r g dist2d_def Let_def case_prod_beta)
  then show ?case using Cons by simp
qed

lemma angles_well_shaped:
  assumes "well_shaped s n" and "0 < n"
  shows "angles s = Inr (map (\<lambda>i. arctan2 (snd (transferPositionsInSharedFrame s ! i) - snd (innerPositions s ! i))
                                          (fst (transferPositionsInSharedFrame s ! i) - fst (innerPositions s ! i))
                                   * (180 / pi)) [0..<n])"
proof -
  let ?ys = "map (\<lambda>y. y + y_earth s ! 0) (y_transfer s)"
  let ?xs = "map (\<lambda>x. x + x_earth s ! 0) (x_transfer s)"
  have l: "length ?ys = n" "length ?xs = n" "length (x_earth s) = n" "length (y_earth s) = n"
    using assms(1) by (simp_all add: well_shaped_def)
  have dy: "np_binop (-) ?ys (y_earth s) = Inr (map2 (-) ?ys (y_earth s))"
    using assms(1) by (intro np_binop_same_length) (simp add: well_shaped_def)
  have dx: "np_binop (-) ?xs (x_earth s) = Inr (map2 (-) ?xs (x_earth s))"
    using assms(1) by (intro np_binop_same_length) (simp add: well_shaped_def)
  have a: "np_binop arctan2 (map2 (-) ?ys (y_earth s)) (map2 (-) ?xs (x_earth s))
           = Inr (map2 arctan2 (map2 (-) ?ys (y_earth s)) (map2 (-) ?xs (x_earth s)))"
    using assms(1) by (intro np_binop_same_length) (simp add: well_shaped_def)
  have e: "map (\<lambda>v. v * (180 / pi)) (map2 arctan2 (map2 (-) ?ys (y_earth s)) (map2 (-) ?xs (x_earth s)))
        = map (\<lambda>i. arctan2 (snd (transferPositionsInSharedFrame s ! i) - snd (innerPositions s ! i))
                                          (fst (transferPositionsInSharedFrame s ! i) - fst (innerPositions s ! i))
                                   * (180 / pi)) [0..<n]"
    using l assms(1)
    by (intro nth_equalityI)
       (simp_all add: transferPositionsInSharedFrame_def innerPositions_def well_shaped_def)
  have g: "getitem (y_earth s) 0 = Inr (y_earth s ! 0)" "getitem (x_earth s) 0 = Inr (x_earth s ! 0)"
    using assms by (simp_all add: well_shaped_def)
  show ?thesis by (simp only: angles_def g bind_err_Inr dy dx a e)
qed

lemma rocket_distances_well_shaped:
  assumes "well_shaped s n" and "0 < n" and "intercept_idx s = Inr k"
  shows "rocket_distances s =
           Inr (map (\<lambda>i. dist2d (if i < k then transferPositionsInSharedFrame s ! i
                                   else targetPositions s ! i) (innerPositions s ! i)) [0..<n])"
proof -
  have "length (t_arr s) = n" using assms(1) by (simp add: well_shaped_def)
  then show ?thesis
    using rocket_distances_loop_well_shaped [OF assms, of "[0..<n]" "[]"]
    by (simp add: rocket_distances_def)
qed

subsection \<open>The arrays of the scripts, entry by entry\<close>

lemma GM_pos: "0 < G * M_sun"
  by (simp add: G_def M_sun_def)

lemma computePeriod_pos: "0 < r \<Longrightarrow> 0 < M \<Longrightarrow> 0 < computePeriod r M"
  using G_pos by (simp add: computePeriod_def)

lemma ratio_cancel:
  fixes g :: real
  assumes "0 < g"
  shows "(r ^ 3 / g) / (q ^ 3 / g) = (r / q) ^ 3" and "(g / q ^ 3) * (r ^ 3 / g) = (r / q) ^ 3"
  using assms by (simp_all add: power_divide)

lemma t_grid_nth:
  assumes "i < N_samples"
  shows "t_grid ! i = real i / 999 * T_mars"
proof (cases "i = 999")
  case True
  then show ?thesis using linspace_last [of 1000 0 T_mars]
    by (simp add: t_grid_def N_samples_def)
next
  case False
  then have "i < 1000 - 1" using assms by (simp add: N_samples_def)
  from linspace_nth [OF this, of 0 T_mars] show ?thesis
    by (simp add: t_grid_def N_samples_def)
qed

lemma length_t_grid: "length t_grid = N_samples"
  by (simp add: t_grid_def length_linspace)

lemma earth_rate: "(2 * pi / T_earth) * T_mars = 2 * pi * sqrt ((2279 / 1496) ^ 3)"
proof -
  have "sqrt (r_mars_orbit ^ 3 / (G * M_sun)) / sqrt (r_earth_orbit ^ 3 / (G * M_sun))
        = sqrt ((r_mars_orbit ^ 3 / (G * M_sun)) / (r_earth_orbit ^ 3 / (G * M_sun)))"
    by (simp only: real_sqrt_divide)
  also have "(r_mars_orbit ^ 3 / (G * M_sun)) / (r_earth_orbit ^ 3 / (G * M_sun)) = (r_mars_orbit / r_earth_orbit) ^ 3"
    by (rule ratio_cancel(1) [OF GM_pos])
  also have "r_mars_orbit / r_earth_orbit = 2279 / 1496"
    by (simp add: r_mars_orbit_def r_earth_orbit_def)
  finally have e: "sqrt (r_mars_orbit ^ 3 / (G * M_sun)) / sqrt (r_earth_orbit ^ 3 / (G * M_sun))
        = sqrt ((2279 / 1496) ^ 3)" .
  have "(2 * pi / T_earth) * T_mars
        = 2 * pi * (sqrt (r_mars_orbit ^ 3 / (G * M_sun)) / sqrt (r_earth_orbit ^ 3 / (G * M_sun)))"
    by (simp add: T_earth_def T_mars_def computePeriod_def)
  then show ?thesis by (simp only: e)
qed

lemma transfer_rate: "sqrt ((G * M_sun) / a_transfer ^ 3) * T_mars = 2 * pi * sqrt ((4558 / 3775) ^ 3)"
proof -
  have "sqrt ((G * M_sun) / a_transfer ^ 3) * sqrt (r_mars_orbit ^ 3 / (G * M_sun))
        = sqrt (((G * M_sun) / a_transfer ^ 3) * (r_mars_orbit ^ 3 / (G * M_sun)))"
    by (simp only: real_sqrt_mult)
  also have "((G * M_sun) / a_transfer ^ 3) * (r_mars_orbit ^ 3 / (G * M_sun)) = (r_mars_orbit / a_transfer) ^ 3"
    by (rule ratio_cancel(2) [OF GM_pos])
  also have "r_mars_orbit / a_transfer = 4558 / 3775"
    by (simp add: r_mars_orbit_def r_earth_orbit_def a_transfer_def semi_major_def)
  finally have e: "sqrt ((G * M_sun) / a_transfer ^ 3) * sqrt (r_mars_orbit ^ 3 / (G * M_sun))
        = sqrt ((4558 / 3775) ^ 3)" .
  have "sqrt ((G * M_sun) / a_transfer ^ 3) * T_mars
        = 2 * pi * (sqrt ((G * M_sun) / a_transfer ^ 3) * sqrt (r_mars_orbit ^ 3 / (G * M_sun)))"
    by (simp add: T_mars_def computePeriod_def)
  then show ?thesis by (simp only: e)
qed

lemma mars_rate: "(2 * pi / T_mars) * T_mars = 2 * pi"
proof -
  have "0 < T_mars" unfolding T_mars_def
    using computePeriod_pos [of r_mars_orbit M_sun] by (simp add: r_mars_orbit_def M_sun_def)
  then show ?thesis by simp
qed

lemma theta_earth_nth:
  assumes "i < N_samples"
  shows "theta_earth ! i = real i / 999 * (2 * pi * sqrt ((2279 / 1496) ^ 3))"
proof -
  have "theta_earth ! i = (2 * pi / T_earth) * (real i / 999 * T_mars)"
    using assms by (simp add: theta_earth_def length_t_grid t_grid_nth)
  also have "\<dots> = real i / 999 * ((2 * pi / T_earth) * T_mars)"
    by (simp only: mult.left_commute)
  finally show ?thesis by (simp only: earth_rate)
qed

lemma theta_transfer_nth:
  assumes "i < N_samples"
  shows "theta_transfer ! i = real i / 999 * (2 * pi * sqrt ((4558 / 3775) ^ 3))"
proof -
  have "theta_transfer ! i = sqrt ((G * M_sun) / a_transfer ^ 3) * (real i / 999 * T_mars)"
    using assms by (simp add: theta_transfer_def transfer_theta_def length_t_grid t_grid_nth)
  also have "\<dots> = real i / 999 * (sqrt ((G * M_sun) / a_transfer ^ 3) * T_mars)"
    by (simp only: mult.left_commute)
  finally show ?thesis by (simp only: transfer_rate)
qed

lemma theta_mars_nth:
  assumes "i < N_samples"
  shows "orbit_theta T_mars phase t_grid ! i = real i / 999 * (2 * pi) + phase"
proof -
  have "orbit_theta T_mars phase t_grid ! i = (2 * pi / T_mars) * (real i / 999 * T_mars) + phase"
    using assms by (simp add: orbit_theta_def length_t_grid t_grid_nth)
  also have "(2 * pi / T_mars) * (real i / 999 * T_mars) = real i / 999 * ((2 * pi / T_mars) * T_mars)"
    by (simp only: mult.left_commute)
  finally show ?thesis by (simp only: mars_rate)
qed

lemma script_nth:
  assumes "i < N_samples"
  shows "x_earth (script phase f) ! i = r_earth_orbit * cos (real i / 999 * (2 * pi * sqrt ((2279 / 1496) ^ 3)))"
    and "y_earth (script phase f) ! i = r_earth_orbit * sin (real i / 999 * (2 * pi * sqrt ((2279 / 1496) ^ 3)))"
    and "x_mars (script phase f) ! i = r_mars_orbit * cos (real i / 999 * (2 * pi) + phase)"
    and "y_mars (script phase f) ! i = r_mars_orbit * sin (real i / 999 * (2 * pi) + phase)"
    and "y_transfer (script phase f) ! i = a_transfer * sin (real i / 999 * (2 * pi * sqrt ((4558 / 3775) ^ 3)))"
    and "x_transfer (script phase transfer_x_upd) ! i
           = a_transfer * cos (real i / 999 * (2 * pi * sqrt ((4558 / 3775) ^ 3))) - a_transfer"
    and "x_transfer (script phase transfer_x_sim) ! i
           = a_transfer * (cos (real i / 999 * (2 * pi * sqrt ((4558 / 3775) ^ 3))) - 1)"
proof -
  have le: "i < length theta_earth" "i < length theta_transfer" "i < length (orbit_theta T_mars phase t_grid)"
    using assms by (simp_all add: theta_earth_def theta_transfer_def transfer_theta_def
        orbit_theta_def length_t_grid)
  show "x_earth (script phase f) ! i = r_earth_orbit * cos (real i / 999 * (2 * pi * sqrt ((2279 / 1496) ^ 3)))"
    using le(1) by (simp add: script_def orbit_x_def theta_earth_nth [OF assms])
  show "y_earth (script phase f) ! i = r_earth_orbit * sin (real i / 999 * (2 * pi * sqrt ((2279 / 1496) ^ 3)))"
    using le(1) by (simp add: script_def orbit_y_def theta_earth_nth [OF assms])
  show "x_mars (script phase f) ! i = r_mars_orbit * cos (real i / 999 * (2 * pi) + phase)"
    using le(3) by (simp add: script_def orbit_x_def theta_mars_nth [OF assms])
  show "y_mars (script phase f) ! i = r_mars_orbit * sin (real i / 999 * (2 * pi) + phase)"
    using le(3) by (simp add: script_def orbit_y_def theta_mars_nth [OF assms])
  show "y_transfer (script phase f) ! i = a_transfer * sin (real i / 999 * (2 * pi * sqrt ((4558 / 3775) ^ 3)))"
    using le(2) by (simp add: script_def transfer_y_def theta_transfer_nth [OF assms])
  show "x_transfer (script phase transfer_x_upd) ! i
           = a_transfer * cos (real i / 999 * (2 * pi * sqrt ((4558 / 3775) ^ 3))) - a_transfer"
    using le(2) by (simp add: script_def transfer_x_upd_def theta_transfer_nth [OF assms])
  show "x_transfer (script phase transfer_x_sim) ! i
           = a_transfer * (cos (real i / 999 * (2 * pi * sqrt ((4558 / 3775) ^ 3))) - 1)"
    using le(2) by (simp add: script_def transfer_x_sim_def theta_transfer_nth [OF assms])
qed

lemma earth_ratio_bounds: "11 / 6 \<le> sqrt ((2279 / 1496) ^ 3)" "sqrt ((2279 / 1496) ^ 3) \<le> 2"
proof -
  have v: "(2279 / 1496 :: real) ^ 3 = 11836763639 / 3348071936" by (simp add: power_divide)
  show "11 / 6 \<le> sqrt ((2279 / 1496) ^ 3)"
    unfolding v by (rule real_le_rsqrt) (simp add: power_divide)
  show "sqrt ((2279 / 1496) ^ 3) \<le> 2"
    unfolding v by (rule real_le_lsqrt) simp_all
qed

lemma transfer_ratio_bounds: "5 / 4 \<le> sqrt ((4558 / 3775) ^ 3)" "sqrt ((4558 / 3775) ^ 3) \<le> 3 / 2"
proof -
  have v: "(4558 / 3775 :: real) ^ 3 = 94694109112 / 53796109375" by (simp add: power_divide)
  show "5 / 4 \<le> sqrt ((4558 / 3775) ^ 3)"
    unfolding v by (rule real_le_rsqrt) (simp add: power_divide)
  show "sqrt ((4558 / 3775) ^ 3) \<le> 3 / 2"
    unfolding v by (rule real_le_lsqrt) (simp_all add: power_divide)
qed

text \<open>
  Signs of the coordinates at the last sample, where the time is one outer period.
\<close>

lemma earth_last:
  defines "al \<equiv> 2 * pi * sqrt ((2279 / 1496) ^ 3)"
  shows "1 / 2 \<le> cos al" and "sin al \<le> 0"
proof -
  define z where "z = 4 * pi - al"
  have z: "0 \<le> z" "z \<le> pi / 3"
    using earth_ratio_bounds pi_gt_zero
    by (simp_all add: z_def al_def field_simps)
  have al: "al = - z + 2 * pi + 2 * pi" by (simp add: z_def)
  have c: "cos al = cos z" unfolding al by (simp only: cos_periodic cos_minus)
  have s: "sin al = - sin z" unfolding al by (simp only: sin_periodic sin_minus)
  have "cos (pi / 3) \<le> cos z"
    using z pi_gt_zero by (intro cos_monotone_0_pi_le) simp_all
  then show "1 / 2 \<le> cos al" by (simp add: c cos_60)
  have "0 \<le> sin z" using z pi_gt_zero by (intro sin_ge_zero) simp_all
  then show "sin al \<le> 0" by (simp add: s)
qed

lemma transfer_last:
  defines "th \<equiv> 2 * pi * sqrt ((4558 / 3775) ^ 3)"
  shows "cos th \<le> 0" and "0 \<le> sin th"
proof -
  define w where "w = th - 2 * pi"
  have w: "pi / 2 \<le> w" "w \<le> pi"
    using transfer_ratio_bounds pi_gt_zero
    by (simp_all add: w_def th_def field_simps)
  have th: "th = w + 2 * pi" by (simp add: w_def)
  have "cos w \<le> cos (pi / 2)"
    using w pi_gt_zero by (intro cos_monotone_0_pi_le) simp_all
  then show "cos th \<le> 0" unfolding th by (simp only: cos_periodic cos_pi_half)
  have "0 \<le> sin w" using w pi_gt_zero by (intro sin_ge_zero) simp_all
  then show "0 \<le> sin th" unfolding th by (simp only: sin_periodic)
qed

lemma mars_last: "7 / 10 \<le> cos (2 * pi + phase_upd)"
proof -
  have p: "0 \<le> phase_upd" "phase_upd \<le> pi / 4"
    using pi_gt_zero by (simp_all add: phase_upd_def deg2rad_def field_simps)
  have "cos (pi / 4) \<le> cos phase_upd"
    using p pi_gt_zero by (intro cos_monotone_0_pi_le) simp_all
  moreover have "7 / 5 \<le> sqrt 2" by (rule real_le_rsqrt) (simp add: power2_eq_square)
  moreover have "cos (2 * pi + phase_upd) = cos phase_upd"
    using cos_periodic [of phase_upd] by (simp add: add.commute)
  ultimately show ?thesis by (simp add: cos_45)
qed

lemma arctan2_right: "0 < x \<Longrightarrow> arctan2 y x * (180 / pi) < 90"
proof -
  assume "0 < x"
  then have "arctan2 y x = arctan (y / x)" by (simp add: arctan2_def)
  then have "arctan2 y x < pi / 2" using arctan_ubound [of "y / x"] by simp
  then have "arctan2 y x * (180 / pi) < pi / 2 * (180 / pi)"
    using pi_gt_zero by (simp add: field_simps)
  then show ?thesis by simp
qed

lemma arctan2_upper_left: "x < 0 \<Longrightarrow> 0 \<le> y \<Longrightarrow> 90 < arctan2 y x * (180 / pi)"
proof -
  assume "x < 0" and "0 \<le> y"
  then have "arctan2 y x = arctan (y / x) + pi" by (simp add: arctan2_def)
  then have "pi / 2 < arctan2 y x" using arctan_lbound [of "y / x"] by simp
  then have "pi / 2 * (180 / pi) < arctan2 y x * (180 / pi)"
    using pi_gt_zero by (simp add: field_simps)
  then show ?thesis by simp
qed

subsection \<open>Per-frame read-outs\<close>

text \<open>
  The read-outs of \<^verbatim>\<open>animate\<close> and the entries of \<^verbatim>\<open>rocket_distances\<close> in
  \<^verbatim>\<open>Hohmann_rocket_angle_updated.py\<close>: for every frame the angle is \<open>atan2 (dy, dx)\<close> in
  degrees and the distance is \<open>sqrt (dx\<^sup>2 + dy\<^sup>2)\<close>, where \<open>(dx, dy)\<close> is the composed
  rocket position minus the inner body's position.
\<close>

lemma animate_upd_readouts:
  assumes "i < N_samples"
  shows "\<exists>k ps fr ds.
           intercept_idx script_upd = Inr k \<and> composeTrajectory script_upd k = Inr ps \<and>
           animate_upd script_upd k i = Inr fr \<and> rocket_distances script_upd = Inr ds \<and>
           rocket fr = ps ! i \<and> earth fr = innerPositions script_upd ! i \<and>
           angle fr = arctan2 (snd (ps ! i) - snd (innerPositions script_upd ! i))
                              (fst (ps ! i) - fst (innerPositions script_upd ! i)) * (180 / pi) \<and>
           distance fr = sqrt ((fst (ps ! i) - fst (innerPositions script_upd ! i)) ^ 2 +
                               (snd (ps ! i) - snd (innerPositions script_upd ! i)) ^ 2) \<and>
           ds ! i = distance fr"
proof -
  let ?s = script_upd
  have n: "0 < N_samples" by (simp add: N_samples_def)
  note ws = well_shaped_script_upd
  from intercept_idx_well_shaped(2) [OF ws n]
  obtain k where k: "intercept_idx ?s = Inr k" by blast
  let ?sel = "\<lambda>i. if i < k then transferPositionsInSharedFrame ?s ! i else targetPositions ?s ! i"
  have c: "composeTrajectory ?s k = Inr (map ?sel [0..<N_samples])"
    by (rule composeTrajectory_well_shaped [OF ws])
  have a: "animate_upd ?s k i =
           Inr \<lparr> rocket = ?sel i, earth = innerPositions ?s ! i, mars = targetPositions ?s ! i,
                 angle = arctan2 (snd (?sel i) - snd (innerPositions ?s ! i))
                                 (fst (?sel i) - fst (innerPositions ?s ! i)) * (180 / pi),
                 distance = dist2d (?sel i) (innerPositions ?s ! i) \<rparr>"
    by (rule animate_upd_well_shaped [OF ws assms])
  have d: "rocket_distances ?s =
           Inr (map (\<lambda>i. dist2d (?sel i) (innerPositions ?s ! i)) [0..<N_samples])"
    by (rule rocket_distances_well_shaped [OF ws n k])
  have e: "map ?sel [0..<N_samples] ! i = ?sel i" using assms by simp
  have f: "map (\<lambda>i. dist2d (?sel i) (innerPositions ?s ! i)) [0..<N_samples] ! i
           = dist2d (?sel i) (innerPositions ?s ! i)" using assms by simp
  show ?thesis
    apply (rule exI [of _ k])
    apply (rule exI [of _ "map ?sel [0..<N_samples]"])
    apply (rule exI [of _ "\<lparr> rocket = ?sel i, earth = innerPositions ?s ! i, mars = targetPositions ?s ! i,
                 angle = arctan2 (snd (?sel i) - snd (innerPositions ?s ! i))
                                 (fst (?sel i) - fst (innerPositions ?s ! i)) * (180 / pi),
                 distance = dist2d (?sel i) (innerPositions ?s ! i) \<rparr>"])
    apply (rule exI [of _ "map (\<lambda>i. dist2d (?sel i) (innerPositions ?s ! i)) [0..<N_samples]"])
    apply (simp only: k c a d e f)
    apply (simp add: dist2d_def)
    done
qed

text \<open>
  Claim C3. The series \<^verbatim>\<open>angles\<close> that the same script computes for its angle plot is
  built from the translated arc at every sample and never switches to the outer body.
  At the last sample, 999, which is not below the intercept index, the per-frame angle
  of \<^verbatim>\<open>animate\<close> (rocket on the outer body) is below 90 degrees while the entry of
  \<^verbatim>\<open>angles\<close> is above 90 degrees: the series is not the bearing of the composed rocket
  trajectory.
\<close>

theorem angles_series_ignores_intercept:
  "\<exists>k fr as. intercept_idx script_upd = Inr k \<and> animate_upd script_upd k 999 = Inr fr \<and>
      angles script_upd = Inr as \<and> angle fr < 90 \<and> 90 < as ! 999"
proof -
  let ?s = script_upd
  have n: "0 < N_samples" and l: "999 < N_samples" and z: "0 < N_samples"
    by (simp_all add: N_samples_def)
  note ws = well_shaped_script_upd
  from intercept_idx_well_shaped(2) [OF ws n]
  obtain k where k: "intercept_idx ?s = Inr k" "k < N_samples" by blast
  then have nb: "\<not> 999 < k" by (simp add: N_samples_def)
  let ?al = "2 * pi * sqrt ((2279 / 1496) ^ 3)" and ?th = "2 * pi * sqrt ((4558 / 3775) ^ 3)"
  have inner: "innerPositions ?s ! 999 = (r_earth_orbit * cos ?al, r_earth_orbit * sin ?al)"
    using shared_frame_nth(3) [OF ws l] script_nth(1,2) [OF l, where phase = phase_upd and f = transfer_x_upd]
    by (simp add: script_upd_def)
  have target: "targetPositions ?s ! 999
      = (r_mars_orbit * cos (2 * pi + phase_upd), r_mars_orbit * sin (2 * pi + phase_upd))"
    using shared_frame_nth(2) [OF ws l] script_nth(3,4) [OF l, where phase = phase_upd and f = transfer_x_upd]
    by (simp add: script_upd_def)
  have e0: "x_earth ?s ! 0 = r_earth_orbit" "y_earth ?s ! 0 = 0"
    using script_nth(1,2) [OF z, where phase = phase_upd and f = transfer_x_upd] by (simp_all add: script_upd_def)
  have arc: "transferPositionsInSharedFrame ?s ! 999
      = (a_transfer * cos ?th - a_transfer + r_earth_orbit, a_transfer * sin ?th)"
    using shared_frame_nth(1) [OF ws l] script_nth(5) [OF l, where phase = phase_upd and f = transfer_x_upd]
      script_nth(6) [OF l, where phase = phase_upd] e0
    by (simp add: script_upd_def)
  have an: "angle (projr (animate_upd ?s (projr (intercept_idx ?s)) 999))
      = arctan2 (r_mars_orbit * sin (2 * pi + phase_upd) - r_earth_orbit * sin ?al)
                (r_mars_orbit * cos (2 * pi + phase_upd) - r_earth_orbit * cos ?al) * (180 / pi)"
    using nb by (simp add: k(1) animate_upd_well_shaped [OF ws l] inner target)
  have ag: "projr (angles ?s) ! 999
      = arctan2 (a_transfer * sin ?th - r_earth_orbit * sin ?al)
                (a_transfer * cos ?th - a_transfer + r_earth_orbit - r_earth_orbit * cos ?al) * (180 / pi)"
    using l by (simp add: angles_well_shaped [OF ws n] inner arc)
  have re: "r_earth_orbit = 149600000000" and rm: "r_mars_orbit = 227900000000"
    and at: "a_transfer = 188750000000"
    by (simp_all add: r_earth_orbit_def r_mars_orbit_def a_transfer_def semi_major_def)
  have c1: "cos ?al \<le> 1" by simp
  have dxm: "0 < r_mars_orbit * cos (2 * pi + phase_upd) - r_earth_orbit * cos ?al"
    unfolding re rm using c1 mars_last by linarith
  have dxt: "a_transfer * cos ?th - a_transfer + r_earth_orbit - r_earth_orbit * cos ?al < 0"
    unfolding re at using earth_last(1) transfer_last(1) by linarith
  have dyt: "0 \<le> a_transfer * sin ?th - r_earth_orbit * sin ?al"
    unfolding re at using earth_last(2) transfer_last(2) by linarith
  have r: "angle (projr (animate_upd ?s (projr (intercept_idx ?s)) 999)) < 90"
    and a: "90 < projr (angles ?s) ! 999"
    unfolding an ag using arctan2_right [OF dxm] arctan2_upper_left [OF dxt dyt] by blast+
  obtain fr where fr: "animate_upd ?s k 999 = Inr fr"
    using animate_upd_well_shaped [OF ws l, of k] by blast
  obtain as where as: "angles ?s = Inr as"
    using angles_well_shaped [OF ws n] by blast
  from r a show ?thesis by (simp add: k(1) fr as)
qed

subsection \<open>Numerical bounds for the configured scenario\<close>

text \<open>
  Bounds on the sine and cosine from their Maclaurin expansions with remainder.
\<close>

lemma sin_remainder:
  fixes x :: real
  assumes "0 \<le> x"
  shows "\<bar>sin x - (\<Sum>m<n. sin_coeff m * x ^ m)\<bar> \<le> x ^ n / fact n"
  using Maclaurin_sin_bound [of x n] assms by (simp add: field_simps)

lemma sin_coeff_values:
  "sin_coeff 1 = 1" "sin_coeff 2 = 0" "sin_coeff 3 = - 1 / 6"
  "sin_coeff 4 = 0" "sin_coeff 5 = 1 / 120" "sin_coeff 6 = 0" "sin_coeff 7 = - 1 / 5040"
  "sin_coeff 8 = 0" "sin_coeff (Suc 0) = 1"
  by (simp_all add: sin_coeff_def fact_numeral)

lemma cos_coeff_values:
  "cos_coeff 1 = 0" "cos_coeff 2 = - 1 / 2" "cos_coeff 3 = 0"
  "cos_coeff (Suc 0) = 0"
  by (simp_all add: cos_coeff_def fact_numeral)

lemma lessThan_values:
  "{..<2::nat} = {0, 1}" "{..<3::nat} = {0, 1, 2}" "{..<4::nat} = {0, 1, 2, 3}"
  "{..<5::nat} = {0, 1, 2, 3, 4}" "{..<7::nat} = {0, 1, 2, 3, 4, 5, 6}"
  "{..<9::nat} = {0, 1, 2, 3, 4, 5, 6, 7, 8}"
  by auto

lemma sin_sum3: "(\<Sum>m<3. sin_coeff m * x ^ m) = (x::real)"
  by (simp add: lessThan_values sin_coeff_values)

lemma sin_sum5: "(\<Sum>m<5. sin_coeff m * x ^ m) = x - x ^ 3 / (6::real)"
  by (simp add: lessThan_values sin_coeff_values)

lemma sin_sum7: "(\<Sum>m<7. sin_coeff m * x ^ m) = x - x ^ 3 / 6 + x ^ 5 / (120::real)"
  by (simp add: lessThan_values sin_coeff_values)

lemma sin_sum9: "(\<Sum>m<9. sin_coeff m * x ^ m) = x - x ^ 3 / 6 + x ^ 5 / 120 - x ^ 7 / (5040::real)"
  by (simp add: lessThan_values sin_coeff_values)

lemma fact_values: "fact 3 = (6::real)" "fact 5 = (120::real)" "fact 7 = (5040::real)"
  "fact 9 = (362880::real)" "fact 2 = (2::real)" "fact 4 = (24::real)"
  by (simp_all add: fact_numeral)

lemma sin_taylor:
  fixes x :: real
  assumes "0 \<le> x"
  shows "x - x ^ 3 / 6 \<le> sin x"
    and "sin x \<le> x - x ^ 3 / 6 + x ^ 5 / 120"
    and "x - x ^ 3 / 6 + x ^ 5 / 120 - x ^ 7 / 5040 \<le> sin x"
    and "sin x \<le> x - x ^ 3 / 6 + x ^ 5 / 120 - x ^ 7 / 5040 + x ^ 9 / 362880"
  using sin_remainder [OF assms, of 3] sin_remainder [OF assms, of 5]
    sin_remainder [OF assms, of 7] sin_remainder [OF assms, of 9]
  unfolding sin_sum3 sin_sum5 sin_sum7 sin_sum9 fact_values
  by linarith+

lemma cos_remainder:
  fixes x :: real
  assumes "even n"
  shows "\<bar>cos x - (\<Sum>m<n. cos_coeff m * x ^ m)\<bar> \<le> x ^ n / fact n"
proof -
  from Maclaurin_cos_expansion [of x n] obtain t where
    t: "cos x = (\<Sum>m<n. cos_coeff m * x ^ m) + (cos (t + 1 / 2 * real n * pi) / fact n) * x ^ n"
    by blast
  have nn: "0 \<le> x ^ n" using assms by (rule zero_le_even_power)
  have "\<bar>(cos (t + 1 / 2 * real n * pi) / fact n) * x ^ n\<bar>
        = \<bar>cos (t + 1 / 2 * real n * pi)\<bar> * (x ^ n / fact n)"
    using nn by (simp add: abs_mult)
  also have "\<dots> \<le> 1 * (x ^ n / fact n)"
    using nn by (intro mult_right_mono) simp_all
  finally show ?thesis using t by simp
qed

lemma cos_sum2: "(\<Sum>m<2. cos_coeff m * x ^ m) = (1::real)"
  by (simp add: lessThan_values cos_coeff_values)

lemma cos_sum4: "(\<Sum>m<4. cos_coeff m * x ^ m) = 1 - x ^ 2 / (2::real)"
  by (simp add: lessThan_values cos_coeff_values)

lemma cos_taylor:
  fixes x :: real
  shows "1 - x ^ 2 / 2 \<le> cos x" and "cos x \<le> 1 - x ^ 2 / 2 + x ^ 4 / 24"
  using cos_remainder [of 2 x] cos_remainder [of 4 x]
  unfolding cos_sum2 cos_sum4 fact_values
  by (simp_all)

text \<open>
  A bracket for \<open>\<pi>\<close> from \<open>sin (\<pi> / 6) = 1 / 2\<close> and the monotonicity of the sine, and a
  bracket for the ratio \<open>sqrt ((r_mars / a_transfer)\<^sup>3)\<close> of the two angular rates.
\<close>

lemma pi_bounds: "3.141591 < pi" "pi < 3.141594"
proof -
  have h: "1 \<le> pi / 2" using pi_ge_two by simp
  have "sin (0.5235985::real) \<le> 0.5235985 - 0.5235985 ^ 3 / 6 + 0.5235985 ^ 5 / 120
          - 0.5235985 ^ 7 / 5040 + 0.5235985 ^ 9 / 362880"
    by (rule sin_taylor(4)) simp
  also have "\<dots> < 1 / 2" by (simp add: power_divide)
  finally have "sin (0.5235985::real) < sin (pi / 6)" by (simp add: sin_30)
  then have "0.5235985 < pi / 6"
    using h by (subst (asm) sin_mono_less_eq) simp_all
  then show "3.141591 < pi" by simp
  have "(1::real) / 2 < 0.523599 - 0.523599 ^ 3 / 6 + 0.523599 ^ 5 / 120 - 0.523599 ^ 7 / 5040"
    by (simp add: power_divide)
  also have "\<dots> \<le> sin (0.523599::real)" by (rule sin_taylor(3)) simp
  finally have "sin (pi / 6) < sin (0.523599::real)" by (simp add: sin_30)
  then have "pi / 6 < 0.523599"
    using h by (subst (asm) sin_mono_less_eq) simp_all
  then show "pi < 3.141594" by simp
qed

lemma transfer_ratio_tight:
  "1.32674 \<le> sqrt ((4558 / 3775) ^ 3)" "sqrt ((4558 / 3775) ^ 3) \<le> 1.32675"
proof -
  have v: "(4558 / 3775 :: real) ^ 3 = 94694109112 / 53796109375" by (simp add: power_divide)
  show "1.32674 \<le> sqrt ((4558 / 3775) ^ 3)"
    unfolding v by (rule real_le_rsqrt) (simp add: power_divide)
  show "sqrt ((4558 / 3775) ^ 3) \<le> 1.32675"
    unfolding v by (rule real_le_lsqrt) (simp_all add: power_divide)
qed

text \<open>
  Near the intercept the angles of the arc and of the outer body are both close to an
  odd multiple of \<open>\<pi>\<close>; with the small offsets \<open>u\<close> and \<open>v\<close> from it, the coordinate
  differences are \<open>r_mars cos v - a cos u - (a - r_earth)\<close> and
  \<open>r_mars sin v - a sin u\<close> up to sign.
\<close>

lemma cos_interval:
  fixes z :: real
  assumes "0 \<le> lo" and "lo \<le> z" and "z \<le> hi"
  shows "1 - hi ^ 2 / 2 \<le> cos z" and "cos z \<le> 1 - lo ^ 2 / 2 + hi ^ 4 / 24"
proof -
  have z0: "0 \<le> z" using assms by simp
  have a: "z ^ 2 \<le> hi ^ 2" using assms(3) z0 by (rule power_mono)
  have b: "lo ^ 2 \<le> z ^ 2" using assms(2,1) by (rule power_mono)
  have c: "z ^ 4 \<le> hi ^ 4" using assms(3) z0 by (rule power_mono)
  show "1 - hi ^ 2 / 2 \<le> cos z" using cos_taylor(1) [of z] a by linarith
  show "cos z \<le> 1 - lo ^ 2 / 2 + hi ^ 4 / 24" using cos_taylor(2) [of z] b c by linarith
qed

lemma sin_interval:
  fixes z :: real
  assumes "0 \<le> lo" and "lo \<le> z" and "z \<le> hi"
  shows "lo - hi ^ 3 / 6 \<le> sin z" and "sin z \<le> hi"
proof -
  have z0: "0 \<le> z" using assms by simp
  have a: "z ^ 3 \<le> hi ^ 3" using assms(3) z0 by (rule power_mono)
  show "lo - hi ^ 3 / 6 \<le> sin z" using sin_taylor(1) [OF z0] a assms(2) by linarith
  show "sin z \<le> hi" using sin_x_le_x [OF z0] assms(3) by linarith
qed

lemma small_offsets_upd:
  fixes u v :: real
  assumes "0.096072 \<le> u" and "u \<le> 0.096097" and "0.079758 \<le> v" and "v \<le> 0.079759"
  shows "\<bar>227900000000 * cos v - 188750000000 * cos u - 39150000000\<bar> \<le> 300000000"
    and "\<bar>227900000000 * sin v - 188750000000 * sin u\<bar> \<le> 300000000"
proof -
  have "(0.9953826832::real) \<le> 1 - 0.096097 ^ 2 / 2" by (simp add: power_divide)
  also have "\<dots> \<le> cos u" by (rule cos_interval(1) [of "0.096072"]) (use assms in simp_all)
  finally have cul: "0.9953826832 \<le> cos u" .
  have "cos u \<le> 1 - 0.096072 ^ 2 / 2 + 0.096097 ^ 4 / 24"
    by (rule cos_interval(2)) (use assms in simp_all)
  also have "\<dots> \<le> (0.9953886387::real)" by (simp add: power_divide)
  finally have cuh: "cos u \<le> 0.9953886387" .
  have "(0.9968192509::real) \<le> 1 - 0.079759 ^ 2 / 2" by (simp add: power_divide)
  also have "\<dots> \<le> cos v" by (rule cos_interval(1) [of "0.079758"]) (use assms in simp_all)
  finally have cvl: "0.9968192509 \<le> cos v" .
  have "cos v \<le> 1 - 0.079758 ^ 2 / 2 + 0.079759 ^ 4 / 24"
    by (rule cos_interval(2)) (use assms in simp_all)
  also have "\<dots> \<le> (0.9968210170::real)" by (simp add: power_divide)
  finally have cvh: "cos v \<le> 0.9968210170" .
  have "(0.0959240965::real) \<le> 0.096072 - 0.096097 ^ 3 / 6" by (simp add: power_divide)
  also have "\<dots> \<le> sin u" by (rule sin_interval(1)) (use assms in simp_all)
  finally have sul: "0.0959240965 \<le> sin u" .
  have suh: "sin u \<le> 0.096097" by (rule sin_interval(2) [of "0.096072"]) (use assms in simp_all)
  have "(0.0796734355::real) \<le> 0.079758 - 0.079759 ^ 3 / 6" by (simp add: power_divide)
  also have "\<dots> \<le> sin v" by (rule sin_interval(1)) (use assms in simp_all)
  finally have svl: "0.0796734355 \<le> sin v" .
  have svh: "sin v \<le> 0.079759" by (rule sin_interval(2) [of "0.079758"]) (use assms in simp_all)
  show "\<bar>227900000000 * cos v - 188750000000 * cos u - 39150000000\<bar> \<le> 300000000"
    using cul cuh cvl cvh by (simp add: abs_le_iff)
  show "\<bar>227900000000 * sin v - 188750000000 * sin u\<bar> \<le> 300000000"
    using sul suh svl svh by (simp add: abs_le_iff)
qed

lemma small_offsets_sim:
  fixes u v :: real
  assumes "0.079138 \<le> u" and "u \<le> 0.079163" and "0.065628 \<le> v" and "v \<le> 0.065672"
  shows "\<bar>227900000000 * cos v - 188750000000 * cos u - 39150000000\<bar> \<le> 300000000"
    and "\<bar>227900000000 * sin v - 188750000000 * sin u\<bar> \<le> 300000000"
proof -
  have "(0.9968666097::real) \<le> 1 - 0.079163 ^ 2 / 2" by (simp add: power_divide)
  also have "\<dots> \<le> cos u" by (rule cos_interval(1) [of "0.079138"]) (use assms in simp_all)
  finally have cul: "0.9968666097 \<le> cos u" .
  have "cos u \<le> 1 - 0.079138 ^ 2 / 2 + 0.079163 ^ 4 / 24"
    by (rule cos_interval(2)) (use assms in simp_all)
  also have "\<dots> \<le> (0.9968702249::real)" by (simp add: power_divide)
  finally have cuh: "cos u \<le> 0.9968702249" .
  have "(0.9978435942::real) \<le> 1 - 0.065672 ^ 2 / 2" by (simp add: power_divide)
  also have "\<dots> \<le> cos v" by (rule cos_interval(1) [of "0.065628"]) (use assms in simp_all)
  finally have cvl: "0.9978435942 \<le> cos v" .
  have "cos v \<le> 1 - 0.065628 ^ 2 / 2 + 0.065672 ^ 4 / 24"
    by (rule cos_interval(2)) (use assms in simp_all)
  also have "\<dots> \<le> (0.9978472579::real)" by (simp add: power_divide)
  finally have cvh: "cos v \<le> 0.9978472579" .
  have "(0.0790553171::real) \<le> 0.079138 - 0.079163 ^ 3 / 6" by (simp add: power_divide)
  also have "\<dots> \<le> sin u" by (rule sin_interval(1)) (use assms in simp_all)
  finally have sul: "0.0790553171 \<le> sin u" .
  have suh: "sin u \<le> 0.079163" by (rule sin_interval(2) [of "0.079138"]) (use assms in simp_all)
  have "(0.0655807948::real) \<le> 0.065628 - 0.065672 ^ 3 / 6" by (simp add: power_divide)
  also have "\<dots> \<le> sin v" by (rule sin_interval(1)) (use assms in simp_all)
  finally have svl: "0.0655807948 \<le> sin v" .
  have svh: "sin v \<le> 0.065672" by (rule sin_interval(2) [of "0.065628"]) (use assms in simp_all)
  show "\<bar>227900000000 * cos v - 188750000000 * cos u - 39150000000\<bar> \<le> 300000000"
    using cul cuh cvl cvh by (simp add: abs_le_iff)
  show "\<bar>227900000000 * sin v - 188750000000 * sin u\<bar> \<le> 300000000"
    using sul suh svl svh by (simp add: abs_le_iff)
qed

lemma small_offsets_distance:
  fixes dx dy :: real
  assumes "\<bar>dx\<bar> \<le> 300000000" and "\<bar>dy\<bar> \<le> 300000000"
  shows "sqrt (dx ^ 2 + dy ^ 2) < 10 ^ 9"
proof -
  have "\<bar>dx\<bar> ^ 2 \<le> 300000000 ^ 2" using assms(1) by (intro power_mono) simp_all
  moreover have "\<bar>dy\<bar> ^ 2 \<le> 300000000 ^ 2" using assms(2) by (intro power_mono) simp_all
  ultimately have "dx ^ 2 + dy ^ 2 < (10 ^ 9) ^ 2" by simp
  then show ?thesis by (intro real_less_lsqrt) simp_all
qed

text \<open>
  The points of the translated arc and of the outer body in closed form, and lower
  bounds for the separation at the first and at the last sample: the outer body is on
  the circle of radius \<open>r_mars\<close>, the arc's point is well inside it.
\<close>

lemma transfer_x_forms: "transfer_x_sim a thetas = transfer_x_upd a thetas"
  by (simp add: transfer_x_sim_def transfer_x_upd_def algebra_simps)

lemma script_sim_alt: "script_sim = script phase_sim transfer_x_upd"
  by (simp add: script_sim_def script_def transfer_x_forms)

lemma constants_values:
  "r_earth_orbit = 149600000000" "r_mars_orbit = 227900000000" "a_transfer = 188750000000"
  by (simp_all add: r_earth_orbit_def r_mars_orbit_def a_transfer_def semi_major_def)

lemma script_points:
  assumes "i < N_samples"
  shows "transferPositionsInSharedFrame (script phase transfer_x_upd) ! i
           = (a_transfer * cos (real i / 999 * (2 * pi * sqrt ((4558 / 3775) ^ 3))) - a_transfer
                + r_earth_orbit,
              a_transfer * sin (real i / 999 * (2 * pi * sqrt ((4558 / 3775) ^ 3))))"
    and "targetPositions (script phase transfer_x_upd) ! i
           = (r_mars_orbit * cos (real i / 999 * (2 * pi) + phase),
              r_mars_orbit * sin (real i / 999 * (2 * pi) + phase))"
proof -
  let ?s = "script phase transfer_x_upd"
  have ws: "well_shaped ?s N_samples"
    by (rule well_shaped_script) (simp add: transfer_x_upd_def)
  have z: "0 < N_samples" by (simp add: N_samples_def)
  have e0: "x_earth ?s ! 0 = r_earth_orbit" "y_earth ?s ! 0 = 0"
    using script_nth(1,2) [OF z, where phase = phase and f = transfer_x_upd] by simp_all
  show "transferPositionsInSharedFrame ?s ! i
           = (a_transfer * cos (real i / 999 * (2 * pi * sqrt ((4558 / 3775) ^ 3))) - a_transfer
                + r_earth_orbit,
              a_transfer * sin (real i / 999 * (2 * pi * sqrt ((4558 / 3775) ^ 3))))"
    using shared_frame_nth(1) [OF ws assms]
      script_nth(5) [OF assms, where phase = phase and f = transfer_x_upd]
      script_nth(6) [OF assms, where phase = phase] e0
    by simp
  show "targetPositions ?s ! i
           = (r_mars_orbit * cos (real i / 999 * (2 * pi) + phase),
              r_mars_orbit * sin (real i / 999 * (2 * pi) + phase))"
    using shared_frame_nth(2) [OF ws assms]
      script_nth(3,4) [OF assms, where phase = phase and f = transfer_x_upd]
    by simp
qed

lemma far_from_circle:
  fixes px py rho R psi :: real
  assumes "px ^ 2 + py ^ 2 \<le> rho ^ 2" and "0 \<le> rho" and "0 \<le> R"
  shows "R - rho \<le> sqrt ((px - R * cos psi) ^ 2 + (py - R * sin psi) ^ 2)"
proof -
  let ?p = "Complex px py" and ?q = "Complex (R * cos psi) (R * sin psi)"
  have "(R * cos psi) ^ 2 + (R * sin psi) ^ 2 = R ^ 2 * ((cos psi) ^ 2 + (sin psi) ^ 2)"
    by (simp only: power_mult_distrib distrib_left)
  also have "\<dots> = R ^ 2" by (simp only: cos_squared_eq) simp
  finally have "cmod ?q = sqrt (R ^ 2)" by (simp only: complex_norm)
  then have q: "cmod ?q = R" using assms(3) by simp
  have "cmod ?p \<le> sqrt (rho ^ 2)"
    unfolding complex_norm using assms(1) by (rule real_sqrt_le_mono)
  then have p: "cmod ?p \<le> rho" using assms(2) by simp
  have "cmod ?q - cmod ?p \<le> cmod (?q - ?p)" by (rule norm_triangle_ineq2)
  also have "cmod (?q - ?p) = sqrt ((R * cos psi - px) ^ 2 + (R * sin psi - py) ^ 2)"
    by (simp add: cmod_def)
  also have "\<dots> = sqrt ((px - R * cos psi) ^ 2 + (py - R * sin psi) ^ 2)"
    by (simp only: power2_commute)
  finally show ?thesis using q p by linarith
qed

lemma first_sample_far:
  "10 ^ 9 \<le> dist2d (transferPositionsInSharedFrame (script phase transfer_x_upd) ! 0)
                     (targetPositions (script phase transfer_x_upd) ! 0)"
proof -
  have z: "0 < N_samples" by (simp add: N_samples_def)
  have "r_mars_orbit - r_earth_orbit
        \<le> sqrt ((r_earth_orbit - r_mars_orbit * cos phase) ^ 2 + (0 - r_mars_orbit * sin phase) ^ 2)"
    by (rule far_from_circle) (simp_all add: constants_values)
  then show ?thesis
    using script_points [OF z, of phase]
    by (simp add: dist2d_def constants_values)
qed

lemma offset_circle_norm:
  fixes A C th :: real
  shows "(A * cos th - C) ^ 2 + (A * sin th) ^ 2 = A ^ 2 - 2 * A * C * cos th + C ^ 2"
proof -
  have e: "(sin th) ^ 2 = 1 - (cos th) ^ 2" by (rule sin_squared_eq)
  have "(A * cos th - C) ^ 2 + (A * sin th) ^ 2
        = (A * cos th - C) ^ 2 + A ^ 2 * (1 - (cos th) ^ 2)"
    by (simp only: power_mult_distrib e)
  also have "\<dots> = A ^ 2 - 2 * A * C * cos th + C ^ 2"
    by (simp add: power2_eq_square algebra_simps)
  finally show ?thesis .
qed

lemma last_sample_far:
  "10 ^ 9 \<le> dist2d (transferPositionsInSharedFrame (script phase transfer_x_upd) ! 999)
                     (targetPositions (script phase transfer_x_upd) ! 999)"
proof -
  have l: "999 < N_samples" by (simp add: N_samples_def)
  let ?th = "2 * pi * sqrt ((4558 / 3775) ^ 3)"
  define w where "w = ?th - 2 * pi"
  have w: "0 \<le> w" "w \<le> 2 * pi / 3"
    using transfer_ratio_tight pi_gt_zero by (simp_all add: w_def field_simps)
  have "cos (2 * pi / 3) \<le> cos w"
    using w pi_gt_zero by (intro cos_monotone_0_pi_le) simp_all
  moreover have "cos ?th = cos w"
    using cos_periodic [of w] by (simp add: w_def)
  ultimately have c: "- (1 / 2) \<le> cos ?th" by (simp add: cos_120)
  let ?px = "188750000000 * cos ?th - 39150000000" and ?py = "188750000000 * sin ?th"
  have "?px ^ 2 + ?py ^ 2
        = 188750000000 ^ 2 - 2 * 188750000000 * 39150000000 * cos ?th + 39150000000 ^ 2"
    by (rule offset_circle_norm)
  also have "\<dots> \<le> 226900000000 ^ 2" using c by simp
  finally have "227900000000 - 226900000000
        \<le> sqrt ((?px - 227900000000 * cos (2 * pi + phase)) ^ 2
                 + (?py - 227900000000 * sin (2 * pi + phase)) ^ 2)"
    by (intro far_from_circle) simp_all
  then show ?thesis
    using script_points [OF l, of phase]
    by (simp add: dist2d_def constants_values)
qed

text \<open>
  Upper bounds for the separation at sample 388 of \<^verbatim>\<open>Hohmann_rocket_angle_updated.py\<close>
  and at sample 367 of \<^verbatim>\<open>Hohmann_Rocket_Sim.py\<close>.
\<close>

lemma near_sample_upd:
  "dist2d (transferPositionsInSharedFrame (script phase_upd transfer_x_upd) ! 388)
          (targetPositions (script phase_upd transfer_x_upd) ! 388) < 10 ^ 9"
proof -
  have l: "388 < N_samples" by (simp add: N_samples_def)
  let ?X = "sqrt ((4558 / 3775) ^ 3)"
  let ?th = "real 388 / 999 * (2 * pi * ?X)"
  let ?psi = "real 388 / 999 * (2 * pi) + phase_upd"
  define u where "u = ?th - pi"
  define v where "v = ?psi - pi"
  have ue: "u = pi * (776 / 999 * ?X - 1)" by (simp add: u_def algebra_simps)
  have ve: "v = pi * (776 / 999 + 179 / 720 - 1)"
    by (simp add: v_def phase_upd_def deg2rad_def algebra_simps)
  have el: "(0.0305808::real) \<le> 776 / 999 * ?X - 1" and eh: "776 / 999 * ?X - 1 \<le> (0.0305886::real)"
    using transfer_ratio_tight by simp_all
  have "(0.096072::real) \<le> 3.141591 * 0.0305808" by simp
  also have "\<dots> \<le> pi * (776 / 999 * ?X - 1)"
    using pi_bounds(1) el by (intro mult_mono) simp_all
  finally have ul: "0.096072 \<le> u" by (simp only: ue)
  have "pi * (776 / 999 * ?X - 1) \<le> 3.141594 * 0.0305886"
    using pi_bounds(2) eh el by (intro mult_mono) simp_all
  also have "\<dots> \<le> (0.096097::real)" by simp
  finally have uh: "u \<le> 0.096097" by (simp only: ue)
  have vl: "0.079758 \<le> v" and vh: "v \<le> 0.079759"
    using pi_bounds by (simp_all add: ve)
  have th: "?th = u + pi" and psi: "?psi = v + pi" by (simp_all add: u_def v_def)
  have tr: "transferPositionsInSharedFrame (script phase_upd transfer_x_upd) ! 388
      = (- (188750000000 * cos u) - 39150000000, - (188750000000 * sin u))"
    unfolding script_points(1) [OF l] th constants_values by simp
  have tg: "targetPositions (script phase_upd transfer_x_upd) ! 388
      = (- (227900000000 * cos v), - (227900000000 * sin v))"
    unfolding script_points(2) [OF l] psi constants_values by simp
  have "sqrt ((227900000000 * cos v - 188750000000 * cos u - 39150000000) ^ 2
              + (227900000000 * sin v - 188750000000 * sin u) ^ 2) < 10 ^ 9"
    by (rule small_offsets_distance) (rule small_offsets_upd [OF ul uh vl vh])+
  then show ?thesis by (simp add: tr tg dist2d_def algebra_simps)
qed

lemma near_sample_sim:
  "dist2d (transferPositionsInSharedFrame (script phase_sim transfer_x_upd) ! 367)
          (targetPositions (script phase_sim transfer_x_upd) ! 367) < 10 ^ 9"
proof -
  have l: "367 < N_samples" by (simp add: N_samples_def)
  let ?X = "sqrt ((4558 / 3775) ^ 3)"
  let ?th = "real 367 / 999 * (2 * pi * ?X)"
  let ?psi = "real 367 / 999 * (2 * pi) + phase_sim"
  define u where "u = pi - ?th"
  define v where "v = 15 * pi - ?psi"
  have ue: "u = pi * (1 - 734 / 999 * ?X)" by (simp add: u_def algebra_simps)
  have ve: "v = pi * (15 - 734 / 999) - 44.75"
    by (simp add: v_def phase_sim_def algebra_simps)
  have el: "(0.0251905::real) \<le> 1 - 734 / 999 * ?X" and eh: "1 - 734 / 999 * ?X \<le> (0.0251981::real)"
    using transfer_ratio_tight by simp_all
  have "(0.079138::real) \<le> 3.141591 * 0.0251905" by simp
  also have "\<dots> \<le> pi * (1 - 734 / 999 * ?X)"
    using pi_bounds(1) el by (intro mult_mono) simp_all
  finally have ul: "0.079138 \<le> u" by (simp only: ue)
  have "pi * (1 - 734 / 999 * ?X) \<le> 3.141594 * 0.0251981"
    using pi_bounds(2) eh el by (intro mult_mono) simp_all
  also have "\<dots> \<le> (0.079163::real)" by simp
  finally have uh: "u \<le> 0.079163" by (simp only: ue)
  have vl: "0.065628 \<le> v" and vh: "v \<le> 0.065672"
    using pi_bounds by (simp_all add: ve)
  have th: "?th = pi - u" and psi: "?psi = 15 * pi - v" by (simp_all add: u_def v_def)
  have c15: "cos (15 * pi - v) = - cos v" and s15: "sin (15 * pi - v) = sin v"
    by (simp_all add: cos_diff sin_diff)
  have tr: "transferPositionsInSharedFrame (script phase_sim transfer_x_upd) ! 367
      = (- (188750000000 * cos u) - 39150000000, 188750000000 * sin u)"
    unfolding script_points(1) [OF l] th constants_values by simp
  have tg: "targetPositions (script phase_sim transfer_x_upd) ! 367
      = (- (227900000000 * cos v), 227900000000 * sin v)"
    unfolding script_points(2) [OF l] psi constants_values c15 s15 by simp
  have "sqrt ((227900000000 * cos v - 188750000000 * cos u - 39150000000) ^ 2
              + (227900000000 * sin v - 188750000000 * sin u) ^ 2) < 10 ^ 9"
    by (rule small_offsets_distance) (rule small_offsets_sim [OF ul uh vl vh])+
  moreover have "(188750000000 * sin u - 227900000000 * sin v) ^ 2
                 = (227900000000 * sin v - 188750000000 * sin u) ^ 2"
    by (rule power2_commute)
  ultimately show ?thesis by (simp add: tr tg dist2d_def algebra_simps)
qed

lemma intercept_strictly_inside:
  assumes ws: "well_shaped s N_samples"
    and d0: "10 ^ 9 \<le> dist2d (transferPositionsInSharedFrame s ! 0) (targetPositions s ! 0)"
    and dl: "10 ^ 9 \<le> dist2d (transferPositionsInSharedFrame s ! 999) (targetPositions s ! 999)"
    and j: "j < N_samples"
    and dj: "dist2d (transferPositionsInSharedFrame s ! j) (targetPositions s ! j) < 10 ^ 9"
  shows "\<exists>k d. intercept_idx s = Inr k \<and> distances_to_mars s = Inr d \<and>
               0 < k \<and> k < N_samples - 1 \<and> d ! k < 10 ^ 9"
proof -
  let ?d = "\<lambda>i. dist2d (transferPositionsInSharedFrame s ! i) (targetPositions s ! i)"
  have n: "0 < N_samples" by (simp add: N_samples_def)
  from intercept_idx_well_shaped(2) [OF ws n]
  obtain k where k: "intercept_idx s = Inr k" "k < N_samples" "\<forall>i<N_samples. ?d k \<le> ?d i"
    by blast
  have dk: "?d k < 10 ^ 9" using k(3) j dj by fastforce
  have "k \<noteq> 0"
  proof
    assume "k = 0"
    with dk d0 show False by simp
  qed
  moreover have "k \<noteq> 999"
  proof
    assume "k = 999"
    with dk dl show False by simp
  qed
  ultimately have b: "0 < k" "k < N_samples - 1" using k(2) by (simp_all add: N_samples_def)
  have ds: "distances_to_mars s = Inr (map ?d [0..<N_samples])"
    by (rule distances_to_mars_well_shaped [OF ws n])
  have "map ?d [0..<N_samples] ! k = ?d k" using k(2) by simp
  with k(1) ds b dk show ?thesis by auto
qed

text \<open>
  Claim C1. With \<open>r_inner = 1.496e11\<close>, \<open>r_outer = 2.279e11\<close>, central mass \<open>1.989e30\<close>,
  \<open>G = 6.67430e-11\<close> and 1000 samples over one outer period, the intercept index is
  strictly between 0 and \<open>N - 1\<close> and the separation at that index is below \<open>10\<^sup>9\<close> metres.
  This holds with the phase offset of 44.75 degrees that
  \<^verbatim>\<open>Hohmann_rocket_angle_updated.py\<close> adds (first conjunct), and also with the 44.75
  that \<^verbatim>\<open>Hohmann_Rocket_Sim.py\<close> adds to the angle as it stands, in radians (second
  conjunct). The computation is the one over the reals.
\<close>

theorem end_to_end_intercept:
  "(\<exists>k d. intercept_idx script_upd = Inr k \<and> distances_to_mars script_upd = Inr d \<and>
          0 < k \<and> k < N_samples - 1 \<and> d ! k < 10 ^ 9) \<and>
   (\<exists>k d. intercept_idx script_sim = Inr k \<and> distances_to_mars script_sim = Inr d \<and>
          0 < k \<and> k < N_samples - 1 \<and> d ! k < 10 ^ 9)"
proof
  have "388 < N_samples" by (simp add: N_samples_def)
  then show "\<exists>k d. intercept_idx script_upd = Inr k \<and> distances_to_mars script_upd = Inr d \<and>
          0 < k \<and> k < N_samples - 1 \<and> d ! k < 10 ^ 9"
    unfolding script_upd_def
    using well_shaped_script_upd first_sample_far last_sample_far near_sample_upd
    by (intro intercept_strictly_inside [where j = 388]) (simp_all add: script_upd_def)
  have "367 < N_samples" by (simp add: N_samples_def)
  then show "\<exists>k d. intercept_idx script_sim = Inr k \<and> distances_to_mars script_sim = Inr d \<and>
          0 < k \<and> k < N_samples - 1 \<and> d ! k < 10 ^ 9"
    unfolding script_sim_alt
    using well_shaped_script_sim first_sample_far last_sample_far near_sample_sim
    by (intro intercept_strictly_inside [where j = 367]) (simp_all add: script_sim_alt)
qed

end
